theory Spec2Isabelle
  imports Main "HOL-Library.Sublist" "HOL-Library.Multiset" "HOL-Library.AList"
begin

text \<open>
  A shallow embedding of the core of \<^verbatim>\<open>src/App.js\<close>, the NFL schedule viewer: the two
  functions of the confidence ranker (\<^verbatim>\<open>transformEvents\<close>, \<^verbatim>\<open>rankEvents\<close>), the game
  normalizer (\<^verbatim>\<open>extractTeams\<close>), the retry loop of \<^verbatim>\<open>fetchDeepSchedule\<close> and the caller
  that surfaces its failures (\<^verbatim>\<open>initializeFetch\<close>). Line numbers are those of
  \<^verbatim>\<open>src/App.js\<close>. The definitions come first, the properties after them.
\<close>

section \<open>JavaScript values and the built-ins the schedule code calls\<close>

text \<open>
  The leaves of the upstream JSON that \<^verbatim>\<open>src/App.js\<close> inspects with dynamic checks
  (moneylines, scores) are values of \<open>jsval option\<close>: \<open>None\<close> is \<^verbatim>\<open>undefined\<close> (a field that
  is not there), \<open>Some JNull\<close> is \<^verbatim>\<open>null\<close>. Numbers are modelled as unbounded integers:
  moneylines and scores are integers far below \<open>2^53\<close>, where a double is exact and renders
  in plain decimal notation; \<^verbatim>\<open>NaN\<close> is the \<open>None\<close> of \<open>int option\<close>. Strings are byte
  strings, so the white space recognised is the ASCII part of JavaScript's.
\<close>

datatype jsval = JNull | JNum int | JStr string

text \<open>Truthiness, as used by \<^verbatim>\<open>x || y\<close>, \<^verbatim>\<open>x ? a : b\<close> and \<^verbatim>\<open>if (x)\<close>.\<close>

fun truthy :: "jsval option \<Rightarrow> bool" where
  "truthy None = False"
| "truthy (Some JNull) = False"
| "truthy (Some (JNum n)) = (n \<noteq> 0)"
| "truthy (Some (JStr s)) = (s \<noteq> [])"

definition truthyStr :: "string option \<Rightarrow> bool" where
  "truthyStr v = (case v of None \<Rightarrow> False | Some s \<Rightarrow> s \<noteq> [])"

text \<open>\<^verbatim>\<open>a || b\<close> on optional strings.\<close>

definition orElse :: "string option \<Rightarrow> string option \<Rightarrow> string option" where
  "orElse a b = (if truthyStr a then a else b)"

text \<open>\<^verbatim>\<open>a || 'literal'\<close>: the result is always a string.\<close>

definition orDefault :: "string option \<Rightarrow> string \<Rightarrow> string" where
  "orDefault a d = (case a of None \<Rightarrow> d | Some s \<Rightarrow> if s = [] then d else s)"

subsection \<open>Number to string\<close>

definition digitChar :: "nat \<Rightarrow> char" where
  "digitChar d = ''0123456789'' ! d"

fun natToString :: "nat \<Rightarrow> string" where
  "natToString n =
     (if n < 10 then [digitChar n] else natToString (n div 10) @ [digitChar (n mod 10)])"

declare natToString.simps [simp del]

text \<open>\<^verbatim>\<open>'' + n\<close> and \<^verbatim>\<open>`${n}`\<close> for an integer \<open>n\<close>.\<close>

definition numberToString :: "int \<Rightarrow> string" where
  "numberToString n =
     (if n < 0 then CHR ''-'' # natToString (nat (- n)) else natToString (nat n))"

subsection \<open>String to number\<close>

definition isWhiteSpace :: "char \<Rightarrow> bool" where
  "isWhiteSpace c \<longleftrightarrow> c \<in> set [CHR 0x09, CHR 0x0A, CHR 0x0B, CHR 0x0C, CHR 0x0D, CHR '' '']"

definition isDigit :: "char \<Rightarrow> bool" where
  "isDigit c \<longleftrightarrow> c \<in> set ''0123456789''"

definition digitVal :: "char \<Rightarrow> nat" where
  "digitVal c = (case map_of (zip ''0123456789'' [0 ..< 10]) c of Some d \<Rightarrow> d | None \<Rightarrow> 0)"

fun digitsValue :: "nat \<Rightarrow> string \<Rightarrow> nat" where
  "digitsValue acc [] = acc"
| "digitsValue acc (c # cs) = digitsValue (10 * acc + digitVal c) cs"

fun splitSign :: "string \<Rightarrow> bool \<times> string" where
  "splitSign [] = (False, [])"
| "splitSign (c # cs) =
     (if c = CHR ''-'' then (True, cs)
      else if c = CHR ''+'' then (False, cs)
      else (False, c # cs))"

text \<open>
  \<^verbatim>\<open>parseInt(s, 10)\<close> on a string: skip leading white space, read an optional sign, then
  the longest run of decimal digits; no digit at all gives \<^verbatim>\<open>NaN\<close>. Whatever follows the
  digits is ignored.
\<close>

definition parseIntString :: "string \<Rightarrow> int option" where
  "parseIntString s =
     (let (neg, u) = splitSign (dropWhile isWhiteSpace s);
          ds = takeWhile isDigit u
      in if ds = [] then None
         else Some (if neg then - int (digitsValue 0 ds) else int (digitsValue 0 ds)))"

text \<open>
  \<^verbatim>\<open>parseInt(v, 10)\<close> on a value: the argument is first converted to a string
  (\<^verbatim>\<open>"undefined"\<close> and \<^verbatim>\<open>"null"\<close> hold no digit).
\<close>

fun parseInt :: "jsval option \<Rightarrow> int option" where
  "parseInt None = None"
| "parseInt (Some JNull) = None"
| "parseInt (Some (JNum n)) = parseIntString (numberToString n)"
| "parseInt (Some (JStr s)) = parseIntString s"

definition trim :: "string \<Rightarrow> string" where
  "trim s = rev (dropWhile isWhiteSpace (rev (dropWhile isWhiteSpace s)))"

text \<open>
  \<^verbatim>\<open>Number(s)\<close> on a string, for the decimal integer literals: surrounding white space is
  dropped, the empty string is \<open>0\<close>, an optional sign and digits only give their value, and
  anything else is read as \<^verbatim>\<open>NaN\<close>. (JavaScript also accepts fractions, exponents, radix
  prefixes and \<^verbatim>\<open>Infinity\<close>, none of which is an integer score or moneyline; they are
  outside this model's numbers.)
\<close>

definition stringToNumber :: "string \<Rightarrow> int option" where
  "stringToNumber s =
     (let t = trim s in
      if t = [] then Some 0
      else let (neg, u) = splitSign t in
        if u \<noteq> [] \<and> list_all isDigit u
        then Some (if neg then - int (digitsValue 0 u) else int (digitsValue 0 u))
        else None)"

text \<open>\<^verbatim>\<open>v > 0\<close> for a value that is neither \<^verbatim>\<open>null\<close> nor \<^verbatim>\<open>undefined\<close>.\<close>

fun greaterThanZero :: "jsval \<Rightarrow> bool" where
  "greaterThanZero JNull = False"
| "greaterThanZero (JNum n) = (n > 0)"
| "greaterThanZero (JStr s) = (case stringToNumber s of Some n \<Rightarrow> n > 0 | None \<Rightarrow> False)"

text \<open>\<^verbatim>\<open>'' + v\<close>.\<close>

fun toString :: "jsval \<Rightarrow> string" where
  "toString JNull = ''null''"
| "toString (JNum n) = numberToString n"
| "toString (JStr s) = s"

section \<open>The upstream data\<close>

text \<open>
  One record per JSON object the code reads, with an optional field wherever the code
  guards against its absence (\<^verbatim>\<open>?.\<close>, \<^verbatim>\<open>&&\<close>, \<^verbatim>\<open>Array.isArray\<close>). Field names are the
  source's, prefixed where two objects share one.
\<close>

record team_record =
  rec_type :: "string option"
  rec_name :: "string option"
  summary :: "string option"
  displayValue :: "string option"

record team =
  team_id :: "string option"
  displayName :: "string option"
  shortDisplayName :: "string option"
  team_abbreviation :: "string option"
  logos :: "string option list"
  records :: "team_record list option"

text \<open>
  A competitor's \<^verbatim>\<open>score\<close>: a number, a string, or anything else (absent, \<^verbatim>\<open>null\<close>, or
  the unresolved \<^verbatim>\<open>{$ref}\<close> object), which is all \<^verbatim>\<open>typeof\<close> tells apart.
\<close>

datatype score_val = ScoreNum int | ScoreStr string | ScoreOther

record competitor =
  homeAway :: string
  team :: "team option"
  score :: score_val
  comp_debugRecordUrl :: "string option"

record team_odds =
  Moneyline :: "jsval option"
  moneyLine :: "jsval option"

record odds_source =
  awayTeamOdds :: "team_odds option"
  homeTeamOdds :: "team_odds option"

record flat_odds =
  targetId :: "string option"
  flat_moneyLine :: "jsval option"

text \<open>
  An entry of \<^verbatim>\<open>competition.odds\<close>. It has the fields of a detail source itself, an
  \<^verbatim>\<open>items\<close> array (empty when missing; an element may be \<^verbatim>\<open>null\<close>), and the flat
  \<^verbatim>\<open>moneyLine\<close> array (\<open>None\<close> when missing or not an array).
\<close>

record odds_entry = odds_source +
  items :: "odds_source option list"
  moneyLines :: "flat_odds list option"

record competition =
  competitors :: "competitor list option"
  odds :: "odds_entry list option"

text \<open>
  \<open>status_type_detail\<close> is \<^verbatim>\<open>event.status.type.detail\<close>: \<open>None\<close> when \<^verbatim>\<open>event.status\<close> or
  its \<^verbatim>\<open>type\<close> is missing, where the unguarded access raises a TypeError.
\<close>

record event =
  ev_id :: "string option"
  ev_name :: "string option"
  competitions :: "competition list option"
  statusState :: "string option"
  status_type_detail :: "string option option"
  ev_debugOddsUrl :: "string option"
  ev_debugStatusUrl :: "string option"

datatype js_error = TypeError

section \<open>The confidence ranker: \<^verbatim>\<open>transformEvents\<close>\<close>

record ranked_event =
  re_id :: "string option"
  re_awayTeam :: string
  re_homeTeam :: string
  re_awayOdds :: "jsval option"
  re_homeOdds :: "jsval option"
  expectedWinner :: string
  winnerLine :: "int option"
  re_status :: "string option"
  confidenceRank :: "int option"

definition tossUp :: string where
  "tossUp = ''Toss-Up / N/A''"

text \<open>\<^verbatim>\<open>oddsData?.awayTeamOdds?.moneyLine || null\<close> (lines 30 and 31).\<close>

definition oddsStr :: "odds_entry option \<Rightarrow> (odds_entry \<Rightarrow> team_odds option) \<Rightarrow> jsval option" where
  "oddsStr oddsData side =
     (let v = (case oddsData of None \<Rightarrow> None
               | Some d \<Rightarrow> (case side d of None \<Rightarrow> None | Some t \<Rightarrow> moneyLine t))
      in if truthy v then v else Some JNull)"

text \<open>\<^verbatim>\<open>oddsStr ? parseInt(oddsStr, 10) : NaN\<close> (lines 34 and 35).\<close>

definition lineNum :: "jsval option \<Rightarrow> int option" where
  "lineNum v = (if truthy v then parseInt v else None)"

text \<open>Lines 37 to 60: the pair \<^verbatim>\<open>(expectedWinner, winnerLine)\<close> from the two parsed lines.\<close>

definition pickWinner :: "string \<Rightarrow> string \<Rightarrow> int option \<Rightarrow> int option \<Rightarrow> string \<times> int option" where
  "pickWinner awayTeamAbbr homeTeamAbbr awayLineNum homeLineNum =
     (case (awayLineNum, homeLineNum) of
        (Some a, Some h) \<Rightarrow>
          if a < 0 \<or> h < 0 then
            (if a < h then (awayTeamAbbr, Some a) else (homeTeamAbbr, Some h))
          else if a > 0 \<and> h > 0 then
            (if a < h then (awayTeamAbbr, Some a) else (homeTeamAbbr, Some h))
          else (tossUp, None)
      | _ \<Rightarrow> (tossUp, None))"

text \<open>Lines 34 to 60 as one step, from the two odds values and the two abbreviations.\<close>

definition winnerOfOdds :: "string \<Rightarrow> string \<Rightarrow> jsval option \<Rightarrow> jsval option \<Rightarrow> string \<times> int option" where
  "winnerOfOdds awayTeamAbbr homeTeamAbbr awayOddsStr homeOddsStr =
     pickWinner awayTeamAbbr homeTeamAbbr (lineNum awayOddsStr) (lineNum homeOddsStr)"

definition teamAbbr :: "competitor option \<Rightarrow> string \<Rightarrow> string" where
  "teamAbbr c d =
     orDefault (case c of None \<Rightarrow> None
                | Some x \<Rightarrow> (case team x of None \<Rightarrow> None | Some t \<Rightarrow> team_abbreviation t)) d"

text \<open>
  The callback of \<^verbatim>\<open>data.events.map\<close> (lines 14 to 73): \<open>Inr None\<close> is the \<^verbatim>\<open>null\<close> it
  returns for an event without two competitors, \<open>Inl TypeError\<close> the exception of the
  unguarded \<^verbatim>\<open>event.status.type.detail\<close>.
\<close>

definition transformEvent :: "event \<Rightarrow> js_error + ranked_event option" where
  "transformEvent ev =
     (let competition = (case competitions ev of Some (c # _) \<Rightarrow> Some c | _ \<Rightarrow> None);
          comps = (case competition of None \<Rightarrow> None | Some c \<Rightarrow> competitors c);
          oddsData = (case competition of None \<Rightarrow> None
                      | Some c \<Rightarrow> (case odds c of Some (d # _) \<Rightarrow> Some d | _ \<Rightarrow> None))
      in case comps of
           None \<Rightarrow> Inr None
         | Some cs \<Rightarrow>
             if length cs < 2 then Inr None
             else
               let away = find (\<lambda>c. homeAway c = ''away'') cs;
                   home = find (\<lambda>c. homeAway c = ''home'') cs;
                   awayTeamAbbr = teamAbbr away ''AWY'';
                   homeTeamAbbr = teamAbbr home ''HOM'';
                   awayOddsStr = oddsStr oddsData awayTeamOdds;
                   homeOddsStr = oddsStr oddsData homeTeamOdds;
                   (w, l) = winnerOfOdds awayTeamAbbr homeTeamAbbr awayOddsStr homeOddsStr
               in (case status_type_detail ev of
                     None \<Rightarrow> Inl TypeError
                   | Some detail \<Rightarrow>
                       Inr (Some \<lparr>re_id = ev_id ev, re_awayTeam = awayTeamAbbr,
                         re_homeTeam = homeTeamAbbr, re_awayOdds = awayOddsStr,
                         re_homeOdds = homeOddsStr, expectedWinner = w, winnerLine = l,
                         re_status = detail, confidenceRank = None\<rparr>)))"

fun transformAll :: "event list \<Rightarrow> js_error + ranked_event list" where
  "transformAll [] = Inr []"
| "transformAll (ev # evs) =
     (case transformEvent ev of
        Inl e \<Rightarrow> Inl e
      | Inr r \<Rightarrow>
          (case transformAll evs of
             Inl e \<Rightarrow> Inl e
           | Inr rs \<Rightarrow> Inr (case r of None \<Rightarrow> rs | Some x \<Rightarrow> x # rs)))"

text \<open>
  \<^verbatim>\<open>transformEvents(data)\<close>: \<open>None\<close> is a \<^verbatim>\<open>data\<close> that is falsy or has no \<^verbatim>\<open>events\<close>.
\<close>

definition transformEvents :: "event list option \<Rightarrow> js_error + ranked_event list" where
  "transformEvents data = (case data of None \<Rightarrow> Inr [] | Some evs \<Rightarrow> transformAll evs)"

section \<open>The confidence ranker: \<^verbatim>\<open>rankEvents\<close>\<close>

text \<open>
  \<^verbatim>\<open>rankEvents\<close> writes \<^verbatim>\<open>confidenceRank\<close> into the event objects it is given, so events
  live in a store: a reference names an object, an array of events is a list of
  references, and the function returns the store it leaves behind together with the new
  array.
\<close>

type_synonym ref = nat

type_synonym store = "ref \<Rightarrow> ranked_event"

text \<open>The filter of line 79.\<close>

definition rankable :: "ranked_event \<Rightarrow> bool" where
  "rankable e \<longleftrightarrow> expectedWinner e \<noteq> tossUp \<and> winnerLine e \<noteq> None"

text \<open>The comparator of line 83, \<^verbatim>\<open>a.winnerLine - b.winnerLine\<close>; \<open>None\<close> is \<^verbatim>\<open>NaN\<close>.\<close>

definition lineDiff :: "ranked_event \<Rightarrow> ranked_event \<Rightarrow> int option" where
  "lineDiff a b =
     (case (winnerLine a, winnerLine b) of
        (Some x, Some y) \<Rightarrow> Some (x - y)
      | _ \<Rightarrow> None)"

text \<open>
  \<^verbatim>\<open>Array.prototype.sort(comparefn)\<close>. The language fixes the result, not the algorithm:
  the sort is stable, and a comparator result of \<^verbatim>\<open>NaN\<close> counts as \<open>0\<close>. The stable
  insertion sort below computes that result: an element goes in front of the first later
  element it does not compare greater than.
\<close>

definition comparatorResult :: "int option \<Rightarrow> int" where
  "comparatorResult v = (case v of None \<Rightarrow> 0 | Some d \<Rightarrow> d)"

fun insertSorted :: "('a \<Rightarrow> 'a \<Rightarrow> int option) \<Rightarrow> 'a \<Rightarrow> 'a list \<Rightarrow> 'a list" where
  "insertSorted cmp x [] = [x]"
| "insertSorted cmp x (y # ys) =
     (if comparatorResult (cmp x y) \<le> 0 then x # y # ys else y # insertSorted cmp x ys)"

definition arraySort :: "('a \<Rightarrow> 'a \<Rightarrow> int option) \<Rightarrow> 'a list \<Rightarrow> 'a list" where
  "arraySort cmp xs = foldr (insertSorted cmp) xs []"

text \<open>
  The \<^verbatim>\<open>forEach\<close> of lines 88 to 93, from index \<open>index\<close> on: each object in turn gets
  \<^verbatim>\<open>totalGames - index\<close> written into its \<^verbatim>\<open>confidenceRank\<close>.
\<close>

fun assignRanks :: "store \<Rightarrow> nat \<Rightarrow> nat \<Rightarrow> ref list \<Rightarrow> store" where
  "assignRanks s totalGames index [] = s"
| "assignRanks s totalGames index (r # rs) =
     assignRanks (s(r := (s r)\<lparr>confidenceRank := Some (int totalGames - int index)\<rparr>))
       totalGames (Suc index) rs"

definition rankEvents :: "store \<Rightarrow> ref list \<Rightarrow> store \<times> ref list" where
  "rankEvents s events =
     (let rankableEvents = filter (\<lambda>r. rankable (s r)) events;
          sorted = arraySort (\<lambda>a b. lineDiff (s a) (s b)) rankableEvents;
          totalGames = length sorted
      in (assignRanks s totalGames 0 sorted, sorted))"

text \<open>
  Reading a ranked store: the line and the rank of the event at a reference, \<open>0\<close> where
  the field holds no number.
\<close>

definition lineOf :: "store \<Rightarrow> ref \<Rightarrow> int" where
  "lineOf s r = (case winnerLine (s r) of Some x \<Rightarrow> x | None \<Rightarrow> 0)"

definition rankOf :: "store \<Rightarrow> ref \<Rightarrow> int" where
  "rankOf s r = (case confidenceRank (s r) of Some n \<Rightarrow> n | None \<Rightarrow> 0)"

text \<open>
  A week of four events: two favourites at \<open>-150\<close>, one at \<open>-300\<close>, and one without
  odds.
\<close>

definition exampleEvent :: "string \<Rightarrow> string \<Rightarrow> int option \<Rightarrow> ranked_event" where
  "exampleEvent away w l =
     \<lparr>re_id = Some away, re_awayTeam = away, re_homeTeam = ''DEN'',
      re_awayOdds = None, re_homeOdds = None, expectedWinner = w, winnerLine = l,
      re_status = None, confidenceRank = None\<rparr>"

definition exampleStore :: store where
  "exampleStore r =
     (if r = 0 then exampleEvent ''KC'' ''KC'' (Some (- 150))
      else if r = 1 then exampleEvent ''NYJ'' tossUp None
      else if r = 2 then exampleEvent ''BUF'' ''BUF'' (Some (- 300))
      else exampleEvent ''SF'' ''DEN'' (Some (- 150)))"

definition exampleEvents :: "ref list" where
  "exampleEvents = [0, 1, 2, 3]"

section \<open>The game normalizer: \<^verbatim>\<open>extractTeams\<close>\<close>

datatype status = upcoming | winner | loser | tie | in_progress

text \<open>A displayed score: the number, or the string \<^verbatim>\<open>'-'\<close>.\<close>

datatype score_cell = Points int | Dash

record game =
  name :: string
  homeTeam :: string
  awayTeam :: string
  homeTeamAbr :: "string option"
  awayTeamAbr :: "string option"
  homeLogo :: string
  awayLogo :: string
  homeRecord :: string
  awayRecord :: string
  homeScore :: score_cell
  awayScore :: score_cell
  homeStatus :: status
  awayStatus :: status
  homeOdds :: string
  awayOdds :: string
  homeDebugRecordUrl :: string
  awayDebugRecordUrl :: string
  debugOddsUrl :: string
  debugStatusUrl :: string

text \<open>
  \<^verbatim>\<open>homeData\<close> and \<^verbatim>\<open>awayData\<close> once the competitor loop has assigned them; before that
  they are \<^verbatim>\<open>{ debugRecordUrl: 'N/A' }\<close>, which is \<open>None\<close> below.
\<close>

record side_data =
  teamName :: string
  sd_score :: "int option"
  teamLogo :: string
  teamRecord :: string
  sd_debugRecordUrl :: string
  teamOdds :: string
  teamNameAbr :: "string option"

subsection \<open>Odds extraction (lines 157 to 209)\<close>

text \<open>
  \<^verbatim>\<open>oddsMap\<close> is an object used as a dictionary from team id to formatted moneyline; a
  key can hold \<^verbatim>\<open>null\<close>. It is an association list, so that \<^verbatim>\<open>Object.keys(oddsMap).length\<close>
  is its length. Keys are team ids, never names that \<^verbatim>\<open>Object.prototype\<close> defines.
\<close>

type_synonym odds_map = "(string \<times> string option) list"

text \<open>Line 166.\<close>

definition formatMoneyLine :: "jsval option \<Rightarrow> string option" where
  "formatMoneyLine ml =
     (case ml of
        None \<Rightarrow> None
      | Some JNull \<Rightarrow> None
      | Some v \<Rightarrow> Some ((if greaterThanZero v then ''+'' else []) @ toString v))"

text \<open>Lines 172 to 174.\<close>

definition oddsSourceOf :: "odds_entry \<Rightarrow> odds_source option" where
  "oddsSourceOf primaryOdds =
     (case items primaryOdds of
        x # _ \<Rightarrow> x
      | [] \<Rightarrow> Some (odds_source.truncate primaryOdds))"

text \<open>Lines 182 to 184 and 193 to 195.\<close>

definition pickMoneyline :: "team_odds \<Rightarrow> jsval option" where
  "pickMoneyline oddsObject =
     (if Moneyline oddsObject \<noteq> None then Moneyline oddsObject else moneyLine oddsObject)"

text \<open>\<^verbatim>\<open>comp && comp.team?.id\<close> when truthy.\<close>

definition truthyTeamId :: "competitor option \<Rightarrow> string option" where
  "truthyTeamId competitor =
     (case competitor of
        None \<Rightarrow> None
      | Some c \<Rightarrow>
          (case team c of
             None \<Rightarrow> None
           | Some t \<Rightarrow> if truthyStr (team_id t) then team_id t else None))"

text \<open>Lines 179 to 187 for the away team, 190 to 198 for the home team.\<close>

definition putTeamOdds :: "competitor option \<Rightarrow> team_odds option \<Rightarrow> odds_map \<Rightarrow> odds_map" where
  "putTeamOdds competitor oddsObject oddsMap =
     (case (truthyTeamId competitor, oddsObject) of
        (Some i, Some obj) \<Rightarrow>
          (case pickMoneyline obj of
             None \<Rightarrow> oddsMap
           | Some ml \<Rightarrow> AList.update i (formatMoneyLine (Some ml)) oddsMap)
      | _ \<Rightarrow> oddsMap)"

text \<open>Attempt 1, lines 177 to 199.\<close>

definition detailOdds :: "competitor option \<Rightarrow> competitor option \<Rightarrow> odds_source option \<Rightarrow> odds_map" where
  "detailOdds awayComp homeComp oddsSource =
     (case oddsSource of
        None \<Rightarrow> []
      | Some src \<Rightarrow>
          putTeamOdds homeComp (homeTeamOdds src) (putTeamOdds awayComp (awayTeamOdds src) []))"

text \<open>The body of the \<^verbatim>\<open>forEach\<close> of attempt 2, lines 204 to 206.\<close>

definition putFlatOdds :: "flat_odds \<Rightarrow> odds_map \<Rightarrow> odds_map" where
  "putFlatOdds ml oddsMap =
     (case targetId ml of
        None \<Rightarrow> oddsMap
      | Some t \<Rightarrow>
          if t \<noteq> [] \<and> flat_moneyLine ml \<noteq> None
          then AList.update t (formatMoneyLine (flat_moneyLine ml)) oddsMap
          else oddsMap)"

definition buildOddsMap :: "competitor list \<Rightarrow> odds_entry list option \<Rightarrow> odds_map" where
  "buildOddsMap comps oddsList =
     (let awayComp = find (\<lambda>c. homeAway c = ''away'') comps;
          homeComp = find (\<lambda>c. homeAway c = ''home'') comps
      in case oddsList of
           Some (primaryOdds # _) \<Rightarrow>
             (let oddsMap = detailOdds awayComp homeComp (oddsSourceOf primaryOdds)
              in if oddsMap = [] then
                   (case moneyLines primaryOdds of
                      Some arr \<Rightarrow> fold putFlatOdds arr oddsMap
                    | None \<Rightarrow> oddsMap)
                 else oddsMap)
         | _ \<Rightarrow> [])"

subsection \<open>The competitor loop (lines 213 to 259)\<close>

text \<open>Line 214.\<close>

definition teamNameOf :: "competitor \<Rightarrow> string" where
  "teamNameOf c =
     (case team c of
        None \<Rightarrow> ''Unknown Team''
      | Some t \<Rightarrow>
          orDefault (orElse (orElse (displayName t) (shortDisplayName t)) (team_abbreviation t))
            ''Unknown Team'')"

text \<open>Line 216: \<^verbatim>\<open>comp.team?.logos?.[0]?.href || ''\<close>.\<close>

definition teamLogoOf :: "competitor \<Rightarrow> string" where
  "teamLogoOf c =
     (case team c of
        None \<Rightarrow> []
      | Some t \<Rightarrow> (case logos t of [] \<Rightarrow> [] | href # _ \<Rightarrow> orDefault href []))"

text \<open>Line 220: \<^verbatim>\<open>teamId && oddsMap[teamId] ? oddsMap[teamId] : 'N/A'\<close>.\<close>

definition teamOddsOf :: "string option \<Rightarrow> odds_map \<Rightarrow> string" where
  "teamOddsOf teamId oddsMap =
     (case teamId of
        None \<Rightarrow> ''N/A''
      | Some i \<Rightarrow>
          if i = [] then ''N/A''
          else (case map_of oddsMap i of
                  Some (Some formatted) \<Rightarrow> if formatted = [] then ''N/A'' else formatted
                | _ \<Rightarrow> ''N/A''))"

text \<open>\<^verbatim>\<open>toLowerCase\<close> on ASCII letters.\<close>

definition lowerChar :: "char \<Rightarrow> char" where
  "lowerChar c =
     (let n = (of_char c :: nat) in if 65 \<le> n \<and> n \<le> 90 then char_of (n + 32) else c)"

definition toLowerCase :: "string \<Rightarrow> string" where
  "toLowerCase s = map lowerChar s"

text \<open>The predicate of line 229.\<close>

definition isOverallRecord :: "team_record \<Rightarrow> bool" where
  "isOverallRecord r \<longleftrightarrow>
     rec_type r = Some ''total'' \<or>
     (case rec_name r of None \<Rightarrow> False | Some n \<Rightarrow> toLowerCase n = ''overall'')"

text \<open>Lines 223 to 239.\<close>

definition teamRecordOf :: "competitor \<Rightarrow> string" where
  "teamRecordOf c =
     (let recs = (case team c of None \<Rightarrow> None | Some t \<Rightarrow> records t);
          teamRecord =
            (case recs of
               None \<Rightarrow> []
             | Some rs \<Rightarrow>
                 (case find isOverallRecord rs of
                    None \<Rightarrow> []
                  | Some overallRecord \<Rightarrow>
                      if truthyStr (summary overallRecord)
                      then orDefault (summary overallRecord) []
                      else if truthyStr (displayValue overallRecord)
                      then orDefault (displayValue overallRecord) []
                      else []))
      in if teamRecord = [] then ''N/A'' else teamRecord)"

text \<open>Lines 243 to 251: the numeric score, or \<^verbatim>\<open>null\<close>.\<close>

definition scoreOf :: "score_val \<Rightarrow> int option" where
  "scoreOf rawScore =
     (case rawScore of
        ScoreNum n \<Rightarrow> Some n
      | ScoreStr s \<Rightarrow> stringToNumber s
      | ScoreOther \<Rightarrow> None)"

definition sideData :: "odds_map \<Rightarrow> competitor \<Rightarrow> side_data" where
  "sideData oddsMap c =
     \<lparr>teamName = teamNameOf c,
      sd_score = scoreOf (score c),
      teamLogo = teamLogoOf c,
      teamRecord = teamRecordOf c,
      sd_debugRecordUrl = orDefault (comp_debugRecordUrl c) ''N/A'',
      teamOdds = teamOddsOf (case team c of None \<Rightarrow> None | Some t \<Rightarrow> team_id t) oddsMap,
      teamNameAbr = (case team c of None \<Rightarrow> None | Some t \<Rightarrow> team_abbreviation t)\<rparr>"

text \<open>One round of the loop on the pair \<^verbatim>\<open>(homeData, awayData)\<close>, lines 254 to 258.\<close>

definition sideStep ::
  "odds_map \<Rightarrow> competitor \<Rightarrow> side_data option \<times> side_data option
     \<Rightarrow> side_data option \<times> side_data option" where
  "sideStep oddsMap c acc =
     (if homeAway c = ''home'' then (Some (sideData oddsMap c), snd acc)
      else if homeAway c = ''away'' then (fst acc, Some (sideData oddsMap c))
      else acc)"

definition sidesOf :: "odds_map \<Rightarrow> competitor list \<Rightarrow> side_data option \<times> side_data option" where
  "sidesOf oddsMap comps = fold (sideStep oddsMap) comps (None, None)"

subsection \<open>Status and displayed scores (lines 264 to 301)\<close>

definition gameStatus ::
  "string option \<Rightarrow> int option \<Rightarrow> int option \<Rightarrow> status \<times> status \<times> score_cell \<times> score_cell" where
  "gameStatus state homeScoreNum awayScoreNum =
     (let finalHomeScore = (case homeScoreNum of Some n \<Rightarrow> Points n | None \<Rightarrow> Dash);
          finalAwayScore = (case awayScoreNum of Some n \<Rightarrow> Points n | None \<Rightarrow> Dash)
      in if state = Some ''post'' then
           (case (homeScoreNum, awayScoreNum) of
              (Some h, Some a) \<Rightarrow>
                if h > a then (winner, loser, finalHomeScore, finalAwayScore)
                else if a > h then (loser, winner, finalHomeScore, finalAwayScore)
                else (tie, tie, finalHomeScore, finalAwayScore)
            | _ \<Rightarrow> (upcoming, upcoming, finalHomeScore, finalAwayScore))
         else if truthyStr state \<and> state \<noteq> Some ''pre'' then
           (in_progress, in_progress, finalHomeScore, finalAwayScore)
         else (upcoming, upcoming, Dash, Dash))"

subsection \<open>One event, and the whole list\<close>

text \<open>
  The body of \<^verbatim>\<open>events.forEach\<close> (lines 145 to 330): \<open>None\<close> where it returns without
  pushing a game.
\<close>

definition extractGame :: "event \<Rightarrow> game option" where
  "extractGame ev =
     (case competitions ev of
        Some (competition # _) \<Rightarrow>
          (case competitors competition of
             None \<Rightarrow> None
           | Some comps \<Rightarrow>
               if length comps < 2 then None
               else
                 (let oddsMap = buildOddsMap comps (odds competition)
                  in case sidesOf oddsMap comps of
                       (Some homeData, Some awayData) \<Rightarrow>
                         if teamName homeData = [] \<or> teamName awayData = [] then None
                         else
                           (case gameStatus (statusState ev) (sd_score homeData) (sd_score awayData) of
                              (hStatus, aStatus, finalHomeScore, finalAwayScore) \<Rightarrow>
                                Some \<lparr>name = orDefault (ev_name ev)
                                         (teamName awayData @ '' at '' @ teamName homeData),
                                  homeTeam = teamName homeData,
                                  awayTeam = teamName awayData,
                                  homeTeamAbr = teamNameAbr homeData,
                                  awayTeamAbr = teamNameAbr awayData,
                                  homeLogo = teamLogo homeData,
                                  awayLogo = teamLogo awayData,
                                  homeRecord = orDefault (Some (teamRecord homeData)) ''N/A'',
                                  awayRecord = orDefault (Some (teamRecord awayData)) ''N/A'',
                                  homeScore = finalHomeScore,
                                  awayScore = finalAwayScore,
                                  homeStatus = hStatus,
                                  awayStatus = aStatus,
                                  homeOdds = teamOdds homeData,
                                  awayOdds = teamOdds awayData,
                                  homeDebugRecordUrl = sd_debugRecordUrl homeData,
                                  awayDebugRecordUrl = sd_debugRecordUrl awayData,
                                  debugOddsUrl = orDefault (ev_debugOddsUrl ev) ''N/A'',
                                  debugStatusUrl = orDefault (ev_debugStatusUrl ev) ''N/A''\<rparr>)
                     | _ \<Rightarrow> None))
      | _ \<Rightarrow> None)"

definition extractTeams :: "event list \<Rightarrow> game list" where
  "extractTeams events = List.map_filter extractGame events"

section \<open>The retry loop of \<^verbatim>\<open>fetchDeepSchedule\<close>\<close>

text \<open>
  The network is the environment. One run of the \<^verbatim>\<open>try\<close> block (lines 350 to 567) ends in
  one of three ways: the response is not \<^verbatim>\<open>ok\<close> and line 353 throws; something else
  throws an error with some message (the transport, the JSON parser, the patching code);
  or the nested fetches end and leave an event graph for \<^verbatim>\<open>extractTeams\<close>. The nested
  fetches catch their own failures and are not modelled further.
\<close>

datatype attempt = NotOk nat string | Threw string | Patched "event list"

text \<open>The message of line 353.\<close>

definition httpErrorMessage :: "nat \<Rightarrow> string \<Rightarrow> string" where
  "httpErrorMessage status statusText =
     ''HTTP Error '' @ natToString status @ '': '' @ statusText"

text \<open>The \<^verbatim>\<open>try\<close> block: the message of the error it throws, or the games it returns.\<close>

definition tryBlock :: "attempt \<Rightarrow> string + game list" where
  "tryBlock a =
     (case a of
        NotOk status statusText \<Rightarrow> Inl (httpErrorMessage status statusText)
      | Threw msg \<Rightarrow> Inl msg
      | Patched events \<Rightarrow> Inr (extractTeams events))"

definition retries :: nat where
  "retries = 5"

definition exhaustedMessage :: string where
  "exhaustedMessage = ''Failed to fetch deep schedule data after multiple retries.''"

text \<open>\<^verbatim>\<open>err.message.includes("HTTP Error")\<close>.\<close>

definition isHttpError :: "string \<Rightarrow> bool" where
  "isHttpError msg \<longleftrightarrow> sublist ''HTTP Error'' msg"

text \<open>
  What a call does, as seen from outside: how it ends (\<open>Inl\<close> the message of the error
  thrown), the \<^verbatim>\<open>setTimeout\<close> delays it waited in order, in milliseconds, and how many
  times it ran the \<^verbatim>\<open>try\<close> block.
\<close>

record fetch_run =
  outcome :: "string + game list"
  waits :: "nat list"
  attempts :: nat

text \<open>
  The \<^verbatim>\<open>for\<close> loop of lines 348 to 577 from the state \<open>(i, delay)\<close>, and line 578 after
  it. \<open>env i\<close> is what the environment makes of attempt number \<open>i\<close>.
\<close>

function retryLoop :: "(nat \<Rightarrow> attempt) \<Rightarrow> nat \<Rightarrow> nat \<Rightarrow> nat list \<Rightarrow> fetch_run" where
  "retryLoop env i delay ws =
     (if i < retries then
        (case tryBlock (env i) of
           Inr gs \<Rightarrow> \<lparr>outcome = Inr gs, waits = ws, attempts = Suc i\<rparr>
         | Inl msg \<Rightarrow>
             if isHttpError msg \<and> i < retries - 1
             then retryLoop env (Suc i) (delay * 2) (ws @ [delay])
             else \<lparr>outcome = Inl msg, waits = ws, attempts = Suc i\<rparr>)
      else \<lparr>outcome = Inl exhaustedMessage, waits = ws, attempts = i\<rparr>)"
  by pat_completeness auto
termination
  by (relation "measure (\<lambda>(env, i, delay, ws). retries - i)") auto

declare retryLoop.simps [simp del]

definition fetchDeepSchedule :: "(nat \<Rightarrow> attempt) \<Rightarrow> fetch_run" where
  "fetchDeepSchedule env = retryLoop env 0 1000 []"

section \<open>\<^verbatim>\<open>initializeFetch\<close>\<close>

record app_state =
  loading :: bool
  error :: "string option"
  games :: "game list"
  hasAttemptedQuery :: bool
  apiUrlUsed :: string

definition SCOREBOARD_URL :: string where
  "SCOREBOARD_URL = ''https://sports.core.api.espn.com/v2/sports/football/leagues/nfl/events''"

definition emptyMessage :: string where
  "emptyMessage =
     ''The schedule API returned 0 games for the selected Week/Year. Data may not be available yet.''"

text \<open>The \<^verbatim>\<open>catch\<close> of lines 611 to 615.\<close>

definition surface :: "string \<Rightarrow> app_state \<Rightarrow> app_state" where
  "surface msg st =
     st\<lparr>error := Some (''Failed to retrieve valid game data. Reason: '' @ msg), loading := False\<rparr>"

text \<open>
  Lines 584 to 616 as a transformer of the component's state; \<open>env\<close> is what the network
  does during the call.
\<close>

definition initializeFetch :: "string \<Rightarrow> (nat \<Rightarrow> attempt) \<Rightarrow> app_state \<Rightarrow> app_state" where
  "initializeFetch requestedUrl env st =
     (let st1 = st\<lparr>loading := True, error := None, games := []\<rparr>
      in if requestedUrl = [] then st1\<lparr>loading := False\<rparr>
         else
           (let isDeepFetch = (requestedUrl \<noteq> SCOREBOARD_URL);
                st2 = st1\<lparr>apiUrlUsed := requestedUrl\<rparr>
            in case outcome (fetchDeepSchedule env) of
                 Inl msg \<Rightarrow> surface msg st2
               | Inr gs \<Rightarrow>
                   (let st3 = (if isDeepFetch then st2\<lparr>hasAttemptedQuery := True\<rparr> else st2)
                    in if isDeepFetch \<and> length gs = 0 then surface emptyMessage st3
                       else st3\<lparr>games := gs, loading := False\<rparr>)))"

section \<open>Notions used to state the properties\<close>

text \<open>An attempt fails with an error that the \<^verbatim>\<open>catch\<close> of line 570 takes for an HTTP error.\<close>

definition failsHttp :: "(nat \<Rightarrow> attempt) \<Rightarrow> nat \<Rightarrow> bool" where
  "failsHttp env i \<longleftrightarrow> (case tryBlock (env i) of Inl msg \<Rightarrow> isHttpError msg | Inr _ \<Rightarrow> False)"

text \<open>
  \<^verbatim>\<open>homeData\<close> and \<^verbatim>\<open>awayData\<close> as the competitor loop leaves them, for an event that gets
  that far (it has a first competition with at least two competitors).
\<close>

definition eventSides :: "event \<Rightarrow> side_data option \<times> side_data option" where
  "eventSides ev =
     (case competitions ev of
        Some (competition # _) \<Rightarrow>
          (case competitors competition of
             None \<Rightarrow> (None, None)
           | Some comps \<Rightarrow>
               if length comps < 2 then (None, None)
               else sidesOf (buildOddsMap comps (odds competition)) comps)
      | _ \<Rightarrow> (None, None))"

text \<open>The last competitor of an array with a given \<^verbatim>\<open>homeAway\<close>.\<close>

definition lastWith :: "string \<Rightarrow> competitor list \<Rightarrow> competitor option" where
  "lastWith role comps = find (\<lambda>c. homeAway c = role) (rev comps)"

text \<open>The score shown for a numeric score, or the dash for \<^verbatim>\<open>null\<close>.\<close>

definition scoreCell :: "int option \<Rightarrow> score_cell" where
  "scoreCell v = (case v of Some n \<Rightarrow> Points n | None \<Rightarrow> Dash)"

definition statusLine :: "game \<Rightarrow> status \<times> status \<times> score_cell \<times> score_cell" where
  "statusLine g = (homeStatus g, awayStatus g, homeScore g, awayScore g)"

text \<open>
  An invariant of odds maps: every value is a result of \<^verbatim>\<open>formatMoneyLine\<close>.
\<close>

definition formatted :: "odds_map \<Rightarrow> bool" where
  "formatted m \<longleftrightarrow> (\<forall>(k, x)\<in>set m. \<exists>ml. x = formatMoneyLine ml)"

section \<open>Worked inputs\<close>

text \<open>Some behaviours of the network during a root fetch.\<close>

definition always503 :: "nat \<Rightarrow> attempt" where
  "always503 i = NotOk 503 ''Service Unavailable''"

definition recoversOnFifth :: "nat \<Rightarrow> attempt" where
  "recoversOnFifth i = (if i < 4 then NotOk 503 ''Service Unavailable'' else Patched [])"

definition transportFails :: "nat \<Rightarrow> attempt" where
  "transportFails i = Threw ''Failed to fetch''"

text \<open>
  A failure that is no response at all, with a message that happens to hold the words
  the \<^verbatim>\<open>catch\<close> looks for.
\<close>

definition proxyFails :: "nat \<Rightarrow> attempt" where
  "proxyFails i = Threw ''proxy said: HTTP Error upstream''"

definition emptySchedule :: "nat \<Rightarrow> attempt" where
  "emptySchedule i = Patched []"

definition initialState :: app_state where
  "initialState =
     \<lparr>loading = False, error = None, games = [], hasAttemptedQuery = False, apiUrlUsed = []\<rparr>"

definition weekUrl :: string where
  "weekUrl =
     ''https://sports.core.api.espn.com/v2/sports/football/leagues/nfl/seasons/2024/types/2/weeks/3/events''"

text \<open>
  One event, Kansas City at Denver, with the home moneyline under \<^verbatim>\<open>Moneyline\<close> and the
  away moneyline under \<^verbatim>\<open>moneyLine\<close>, in four states.
\<close>

definition exampleTeam :: "string \<Rightarrow> string \<Rightarrow> string \<Rightarrow> team" where
  "exampleTeam i n a =
     \<lparr>team_id = Some i, displayName = Some n, shortDisplayName = None,
      team_abbreviation = Some a, logos = [], records = None\<rparr>"

definition exampleCompetitors :: "score_val \<Rightarrow> score_val \<Rightarrow> competitor list" where
  "exampleCompetitors homeScoreRaw awayScoreRaw =
     [\<lparr>homeAway = ''home'', team = Some (exampleTeam ''7'' ''Denver Broncos'' ''DEN''),
       score = homeScoreRaw, comp_debugRecordUrl = None\<rparr>,
      \<lparr>homeAway = ''away'', team = Some (exampleTeam ''12'' ''Kansas City Chiefs'' ''KC''),
       score = awayScoreRaw, comp_debugRecordUrl = None\<rparr>]"

definition exampleOdds :: odds_entry where
  "exampleOdds =
     \<lparr>awayTeamOdds = Some \<lparr>Moneyline = None, moneyLine = Some (JNum 110)\<rparr>,
      homeTeamOdds = Some \<lparr>Moneyline = Some (JNum (- 130)), moneyLine = None\<rparr>,
      items = [], moneyLines = None\<rparr>"

definition exampleGameEvent :: "string option \<Rightarrow> score_val \<Rightarrow> score_val \<Rightarrow> event" where
  "exampleGameEvent state homeScoreRaw awayScoreRaw =
     \<lparr>ev_id = Some ''401'', ev_name = None,
      competitions = Some [\<lparr>competitors = Some (exampleCompetitors homeScoreRaw awayScoreRaw),
                            odds = Some [exampleOdds]\<rparr>],
      statusState = state, status_type_detail = None,
      ev_debugOddsUrl = None, ev_debugStatusUrl = None\<rparr>"

definition finalGame :: event where
  "finalGame = exampleGameEvent (Some ''post'') (ScoreNum 24) (ScoreNum 20)"

definition upcomingGame :: event where
  "upcomingGame = exampleGameEvent (Some ''pre'') (ScoreNum 0) (ScoreNum 0)"

definition liveGame :: event where
  "liveGame = exampleGameEvent (Some ''in'') (ScoreStr ''7'') (ScoreNum 3)"

definition unscoredGame :: event where
  "unscoredGame = exampleGameEvent (Some ''post'') (ScoreNum 24) ScoreOther"

section \<open>Parsing and printing integers\<close>

lemma digitVal_digitChar: "d < 10 \<Longrightarrow> digitVal (digitChar d) = d"
proof -
  assume "d < 10"
  then have "d \<in> {0, 1, 2, 3, 4, 5, 6, 7, 8, 9}" by auto
  then show ?thesis
    by (auto simp: digitVal_def digitChar_def upt_conv_Cons)
qed

lemma isDigit_digitChar: "d < 10 \<Longrightarrow> isDigit (digitChar d)"
proof -
  assume "d < 10"
  then have "d \<in> {0, 1, 2, 3, 4, 5, 6, 7, 8, 9}" by auto
  then show ?thesis
    by (auto simp: isDigit_def digitChar_def)
qed

lemma digitsValue_append: "digitsValue acc (xs @ [c]) = 10 * digitsValue acc xs + digitVal c"
  by (induction xs arbitrary: acc) auto

lemma natToString_digits: "list_all isDigit (natToString n) \<and> natToString n \<noteq> []"
proof (induction n rule: natToString.induct)
  case (1 n)
  show ?case
  proof (cases "n < 10")
    case True
    then show ?thesis by (simp add: natToString.simps[of n] isDigit_digitChar)
  next
    case False
    with 1 show ?thesis by (simp add: natToString.simps[of n] isDigit_digitChar)
  qed
qed

lemma digitsValue_natToString: "digitsValue 0 (natToString n) = n"
proof (induction n rule: natToString.induct)
  case (1 n)
  show ?case
  proof (cases "n < 10")
    case True
    then show ?thesis by (simp add: natToString.simps[of n] digitVal_digitChar)
  next
    case False
    with 1 show ?thesis
      by (simp add: natToString.simps[of n] digitsValue_append digitVal_digitChar)
  qed
qed

lemma isDigit_plain: "isDigit c \<Longrightarrow> \<not> isWhiteSpace c \<and> c \<noteq> CHR ''-'' \<and> c \<noteq> CHR ''+''"
  by (auto simp: isDigit_def isWhiteSpace_def)

lemma parseIntString_digits:
  assumes "list_all isDigit ds" "ds \<noteq> []"
  shows "parseIntString ds = Some (int (digitsValue 0 ds))"
    and "parseIntString (CHR ''-'' # ds) = Some (- int (digitsValue 0 ds))"
proof -
  obtain c cs where ds: "ds = c # cs" using assms(2) by (cases ds) auto
  have c: "isDigit c" using assms(1) ds by simp
  have tw: "takeWhile isDigit ds = ds" using assms(1) by (simp add: list_all_iff)
  show "parseIntString ds = Some (int (digitsValue 0 ds))"
    using isDigit_plain[OF c] assms(2) tw[unfolded ds]
    by (simp add: parseIntString_def ds Let_def)
  have "\<not> isWhiteSpace (CHR ''-'')" by (simp add: isWhiteSpace_def)
  then show "parseIntString (CHR ''-'' # ds) = Some (- int (digitsValue 0 ds))"
    using assms(2) by (simp add: parseIntString_def Let_def tw)
qed

text \<open>Parsing the decimal rendering of an integer gives the integer back.\<close>

lemma parseInt_number: "parseInt (Some (JNum n)) = Some n"
  using parseIntString_digits[OF conjunct1[OF natToString_digits] conjunct2[OF natToString_digits]]
  by (simp add: numberToString_def digitsValue_natToString)

text \<open>
  What the parse step of lines 34 and 35 makes of each kind of value. A numeric \<open>0\<close> and
  the empty string are falsy and so never reach \<^verbatim>\<open>parseInt\<close>: they are \<^verbatim>\<open>NaN\<close> lines.
\<close>

lemma lineNum_simps:
  "lineNum None = None"
  "lineNum (Some JNull) = None"
  "lineNum (Some (JNum n)) = (if n = 0 then None else Some n)"
  "lineNum (Some (JStr s)) = parseIntString s"
proof -
  show "lineNum None = None" "lineNum (Some JNull) = None"
    by (simp_all add: lineNum_def)
  show "lineNum (Some (JNum n)) = (if n = 0 then None else Some n)"
    by (simp add: lineNum_def parseInt_number del: parseInt.simps)
  have "parseIntString [] = None" by (simp add: parseIntString_def)
  then show "lineNum (Some (JStr s)) = parseIntString s"
    by (simp add: lineNum_def)
qed

section \<open>Winner extraction\<close>

text \<open>The event that \<^verbatim>\<open>transformEvents\<close> builds carries the result of the step.\<close>

lemma transformEvent_winner:
  assumes "transformEvent ev = Inr (Some r)"
  shows "(expectedWinner r, winnerLine r) =
           winnerOfOdds (re_awayTeam r) (re_homeTeam r) (re_awayOdds r) (re_homeOdds r)"
  using assms
  by (auto simp: transformEvent_def Let_def split: option.splits list.splits if_splits prod.splits)

lemma transformAll_members:
  "transformAll evs = Inr rs \<Longrightarrow> r \<in> set rs \<Longrightarrow> \<exists>ev\<in>set evs. transformEvent ev = Inr (Some r)"
proof (induction evs arbitrary: rs)
  case Nil
  then show ?case by simp
next
  case (Cons ev evs)
  then show ?case
    by (auto split: sum.splits option.splits)
qed

text \<open>
  Every event that \<^verbatim>\<open>transformEvents\<close> returns has the winner and the line of the step
  applied to its own odds, and no rank yet.
\<close>

lemma transformEvents_winner:
  assumes "transformEvents data = Inr rs" "r \<in> set rs"
  shows "(expectedWinner r, winnerLine r) =
           winnerOfOdds (re_awayTeam r) (re_homeTeam r) (re_awayOdds r) (re_homeOdds r)"
    and "confidenceRank r = None"
proof -
  from assms obtain ev where ev: "transformEvent ev = Inr (Some r)"
    using transformAll_members by (auto simp: transformEvents_def split: option.splits)
  show "(expectedWinner r, winnerLine r) =
           winnerOfOdds (re_awayTeam r) (re_homeTeam r) (re_awayOdds r) (re_homeOdds r)"
    by (rule transformEvent_winner[OF ev])
  show "confidenceRank r = None"
    using ev
    by (auto simp: transformEvent_def Let_def split: option.splits list.splits if_splits prod.splits)
qed

text \<open>
  Claim C1. Whatever the two odds values and the two abbreviations are: if either line
  fails to parse, the expected winner is the sentinel \<^verbatim>\<open>Toss-Up / N/A\<close> and the line is
  \<^verbatim>\<open>NaN\<close>; if both parse and at least one is negative, the away side wins with its line
  when its line is strictly smaller and the home side wins with its line otherwise (so
  equal lines fall to the home side); if both are strictly positive the same comparison
  decides; if both are zero the winner stays the sentinel.
\<close>

theorem winnerOfOdds_cases:
  "(lineNum awayOddsStr = None \<or> lineNum homeOddsStr = None \<longrightarrow>
      winnerOfOdds awayAbbr homeAbbr awayOddsStr homeOddsStr = (tossUp, None)) \<and>
   (\<forall>a h. lineNum awayOddsStr = Some a \<and> lineNum homeOddsStr = Some h \<longrightarrow>
      (a < 0 \<or> h < 0 \<longrightarrow>
         winnerOfOdds awayAbbr homeAbbr awayOddsStr homeOddsStr =
           (if a < h then (awayAbbr, Some a) else (homeAbbr, Some h))) \<and>
      (0 < a \<and> 0 < h \<longrightarrow>
         winnerOfOdds awayAbbr homeAbbr awayOddsStr homeOddsStr =
           (if a < h then (awayAbbr, Some a) else (homeAbbr, Some h))) \<and>
      (a = 0 \<and> h = 0 \<longrightarrow>
         winnerOfOdds awayAbbr homeAbbr awayOddsStr homeOddsStr = (tossUp, None)))"
  by (auto simp: winnerOfOdds_def pickWinner_def split: option.splits)

theorem winnerOfOdds_cases_witness:
  "lineNum (Some (JStr ''abc'')) = None \<and>
   winnerOfOdds ''KC'' ''DEN'' (Some (JStr ''abc'')) (Some (JNum (- 200))) = (tossUp, None) \<and>
   lineNum (Some (JStr ''-150'')) = Some (- 150) \<and> lineNum (Some (JNum 130)) = Some 130 \<and>
   winnerOfOdds ''KC'' ''DEN'' (Some (JStr ''-150'')) (Some (JNum 130)) = (''KC'', Some (- 150)) \<and>
   lineNum (Some (JStr ''-110'')) = Some (- 110) \<and>
   winnerOfOdds ''KC'' ''DEN'' (Some (JStr ''-110'')) (Some (JStr ''-110'')) = (''DEN'', Some (- 110)) \<and>
   lineNum (Some (JStr ''+120'')) = Some 120 \<and> lineNum (Some (JStr ''105'')) = Some 105 \<and>
   winnerOfOdds ''KC'' ''DEN'' (Some (JStr ''+120'')) (Some (JStr ''105'')) = (''DEN'', Some 105) \<and>
   lineNum (Some (JStr ''0'')) = Some 0 \<and>
   winnerOfOdds ''KC'' ''DEN'' (Some (JStr ''0'')) (Some (JStr ''0'')) = (tossUp, None)"
proof -
  have p1: "lineNum (Some (JStr ''abc'')) = None" by code_simp
  have p2: "lineNum (Some (JStr ''-150'')) = Some (- 150)" by code_simp
  have p3: "lineNum (Some (JNum 130)) = Some 130" by (simp add: lineNum_simps)
  have p4: "lineNum (Some (JStr ''-110'')) = Some (- 110)" by code_simp
  have p5: "lineNum (Some (JStr ''+120'')) = Some 120" by code_simp
  have p6: "lineNum (Some (JStr ''105'')) = Some 105" by code_simp
  have p7: "lineNum (Some (JStr ''0'')) = Some 0" by code_simp
  note c = winnerOfOdds_cases[where awayAbbr = "''KC''" and homeAbbr = "''DEN''"]
  have w1: "winnerOfOdds ''KC'' ''DEN'' (Some (JStr ''abc'')) (Some (JNum (- 200))) = (tossUp, None)"
    using c[of "Some (JStr ''abc'')" "Some (JNum (- 200))"] p1 by blast
  have w2: "winnerOfOdds ''KC'' ''DEN'' (Some (JStr ''-150'')) (Some (JNum 130)) = (''KC'', Some (- 150))"
    using c[of "Some (JStr ''-150'')" "Some (JNum 130)"] p2 p3 by simp
  have w3: "winnerOfOdds ''KC'' ''DEN'' (Some (JStr ''-110'')) (Some (JStr ''-110'')) = (''DEN'', Some (- 110))"
    using c[of "Some (JStr ''-110'')" "Some (JStr ''-110'')"] p4 by simp
  have w4: "winnerOfOdds ''KC'' ''DEN'' (Some (JStr ''+120'')) (Some (JStr ''105'')) = (''DEN'', Some 105)"
    using c[of "Some (JStr ''+120'')" "Some (JStr ''105'')"] p5 p6 by simp
  have w5: "winnerOfOdds ''KC'' ''DEN'' (Some (JStr ''0'')) (Some (JStr ''0'')) = (tossUp, None)"
    using c[of "Some (JStr ''0'')" "Some (JStr ''0'')"] p7 by simp
  show ?thesis using p1 p2 p3 p4 p5 p6 p7 w1 w2 w3 w4 w5 by blast
qed

section \<open>Ranking\<close>

subsection \<open>The sort\<close>

lemma insertSorted_insort:
  assumes "\<forall>y\<in>set ys. comparatorResult (cmp x y) \<le> 0 \<longleftrightarrow> f x \<le> f y"
  shows "insertSorted cmp x ys = insort_key f x ys"
  using assms by (induction ys) auto

text \<open>
  Where the comparator agrees with a numeric key on the elements of the array, the array
  sort is the library's stable sort by that key.
\<close>

lemma arraySort_sort_key:
  assumes "\<forall>x\<in>set xs. \<forall>y\<in>set xs. comparatorResult (cmp x y) \<le> 0 \<longleftrightarrow> f x \<le> (f y :: int)"
  shows "arraySort cmp xs = sort_key f xs"
  using assms
proof (induction xs)
  case Nil
  then show ?case by (simp add: arraySort_def)
next
  case (Cons x xs)
  then have ih: "arraySort cmp xs = sort_key f xs" by simp
  have "insertSorted cmp x (sort_key f xs) = insort_key f x (sort_key f xs)"
    using Cons.prems by (intro insertSorted_insort) simp
  then show ?case using ih by (simp add: arraySort_def)
qed

lemma lineDiff_le:
  "rankable (s a) \<Longrightarrow> rankable (s b) \<Longrightarrow>
     comparatorResult (lineDiff (s a) (s b)) \<le> 0 \<longleftrightarrow> lineOf s a \<le> lineOf s b"
  by (auto simp: rankable_def lineDiff_def comparatorResult_def lineOf_def)

lemma rankEvents_sorted_eq:
  "snd (rankEvents s events) = sort_key (lineOf s) (filter (\<lambda>r. rankable (s r)) events)"
  unfolding rankEvents_def Let_def snd_conv
  by (rule arraySort_sort_key) (simp add: lineDiff_le)

lemma rankEvents_store:
  "fst (rankEvents s events) =
     assignRanks s (length (snd (rankEvents s events))) 0 (snd (rankEvents s events))"
  by (simp add: rankEvents_def Let_def)

subsection \<open>The rank assignment\<close>

lemma assignRanks_other: "r \<notin> set rs \<Longrightarrow> assignRanks s n k rs r = s r"
  by (induction rs arbitrary: s k) auto

lemma assignRanks_fields:
  "(assignRanks s n k rs r)\<lparr>confidenceRank := c\<rparr> = (s r)\<lparr>confidenceRank := c\<rparr>"
  by (induction rs arbitrary: s k) auto

lemma assignRanks_nth:
  "distinct rs \<Longrightarrow> i < length rs \<Longrightarrow>
     assignRanks s n k rs (rs ! i) = (s (rs ! i))\<lparr>confidenceRank := Some (int n - int (k + i))\<rparr>"
proof (induction rs arbitrary: s k i)
  case Nil
  then show ?case by simp
next
  case (Cons r rs)
  show ?case
  proof (cases i)
    case 0
    with Cons.prems show ?thesis by (simp add: assignRanks_other)
  next
    case (Suc j)
    with Cons.prems have "rs ! j \<noteq> r" by auto
    with Cons Suc show ?thesis by simp
  qed
qed

lemma assignRanks_written:
  "r \<in> set rs \<Longrightarrow> confidenceRank (assignRanks s n k rs r) \<noteq> None"
proof (induction rs arbitrary: s k)
  case Nil
  then show ?case by simp
next
  case (Cons x rs)
  show ?case
  proof (cases "r \<in> set rs")
    case True
    then show ?thesis using Cons.IH by simp
  next
    case False
    with Cons.prems have "r = x" by simp
    with False show ?thesis by (simp add: assignRanks_other)
  qed
qed

text \<open>
  Two stores that differ only in the ranks of objects about to be overwritten are ranked
  to the same store.
\<close>

lemma assignRanks_cong:
  "\<forall>r. r \<in> set rs \<or> t r = u r \<Longrightarrow>
   \<forall>r. (t r)\<lparr>confidenceRank := None\<rparr> = (u r)\<lparr>confidenceRank := None\<rparr> \<Longrightarrow>
   assignRanks t n k rs = assignRanks u n k rs"
proof (induction rs arbitrary: t u k)
  case Nil
  then show ?case by auto
next
  case (Cons r rs)
  let ?c = "Some (int n - int k)"
  let ?t = "t(r := (t r)\<lparr>confidenceRank := ?c\<rparr>)"
  let ?u = "u(r := (u r)\<lparr>confidenceRank := ?c\<rparr>)"
  have eq: "(t r)\<lparr>confidenceRank := ?c\<rparr> = (u r)\<lparr>confidenceRank := ?c\<rparr>"
  proof -
    have "(t r)\<lparr>confidenceRank := None\<rparr> = (u r)\<lparr>confidenceRank := None\<rparr>"
      using Cons.prems(2) by blast
    then have "((t r)\<lparr>confidenceRank := None\<rparr>)\<lparr>confidenceRank := ?c\<rparr> =
               ((u r)\<lparr>confidenceRank := None\<rparr>)\<lparr>confidenceRank := ?c\<rparr>"
      by simp
    then show ?thesis by simp
  qed
  have a: "\<forall>x. x \<in> set rs \<or> ?t x = ?u x" using Cons.prems(1) eq by auto
  have b: "\<forall>x. (?t x)\<lparr>confidenceRank := None\<rparr> = (?u x)\<lparr>confidenceRank := None\<rparr>"
    using Cons.prems(2) by auto
  show ?case unfolding assignRanks.simps by (rule Cons.IH[OF a b])
qed

lemma ranks_image:
  fixes f :: "ref \<Rightarrow> int"
  assumes d: "distinct rs" and f: "\<forall>i<length rs. f (rs ! i) = int (length rs) - int i"
  shows "bij_betw f (set rs) {1..int (length rs)}"
proof -
  have m: "map f rs = map (\<lambda>i. int (length rs) - int i) [0..<length rs]"
    using f by (intro nth_equalityI) auto
  have "distinct (map (\<lambda>i. int (length rs) - int i) [0..<length rs])"
    by (auto simp: distinct_map inj_on_def)
  then have inj: "inj_on f (set rs)" using m d by (metis distinct_map)
  have "f ` set rs = set (map f rs)" by simp
  also have "\<dots> = (\<lambda>i. int (length rs) - int i) ` {0..<length rs}" by (simp add: m)
  also have "\<dots> = {1..int (length rs)}"
  proof (rule set_eqI, rule iffI)
    fix x assume "x \<in> (\<lambda>i. int (length rs) - int i) ` {0..<length rs}"
    then show "x \<in> {1..int (length rs)}" by auto
  next
    fix x assume x: "x \<in> {1..int (length rs)}"
    then have "nat (int (length rs) - x) \<in> {0..<length rs}" by auto
    moreover have "x = int (length rs) - int (nat (int (length rs) - x))" using x by auto
    ultimately show "x \<in> (\<lambda>i. int (length rs) - int i) ` {0..<length rs}" by blast
  qed
  finally show ?thesis using inj by (simp add: bij_betw_def)
qed

lemma rankable_update: "rankable (e\<lparr>confidenceRank := c\<rparr>) = rankable e"
  by (simp add: rankable_def)

lemma lineDiff_update:
  "lineDiff (a\<lparr>confidenceRank := c\<rparr>) (b\<lparr>confidenceRank := d\<rparr>) = lineDiff a b"
  by (simp add: lineDiff_def)

lemma same_but_rank:
  assumes "e'\<lparr>confidenceRank := None\<rparr> = e\<lparr>confidenceRank := None\<rparr>"
  shows "e' = e\<lparr>confidenceRank := confidenceRank e'\<rparr>"
proof -
  have "(e'\<lparr>confidenceRank := None\<rparr>)\<lparr>confidenceRank := confidenceRank e'\<rparr> =
        (e\<lparr>confidenceRank := None\<rparr>)\<lparr>confidenceRank := confidenceRank e'\<rparr>"
    using assms by simp
  then show ?thesis by simp
qed

lemma example_ranked: "snd (rankEvents exampleStore exampleEvents) = [2, 0, 3]"
  by code_simp

text \<open>
  Claim C2. For every array of events, \<^verbatim>\<open>rankEvents\<close> returns exactly the events of the
  array that have a winner other than the sentinel and a numeric line, as often as the
  array holds them; they are in ascending order of line; and events with the same line
  keep the order they had in the input. When the array holds distinct objects (distinct
  as objects: their fields may well be equal), as the arrays that \<^verbatim>\<open>map\<close> builds do, the
  event at sorted position \<open>i\<close> has rank \<open>N - i\<close>, with \<open>N\<close> the number of events
  returned; the ranks are a bijection from the returned events onto \<open>{1, \<dots>, N}\<close>; and
  the first event returned has the smallest line and rank \<open>N\<close>, the last one the largest
  line and rank \<open>1\<close>.
\<close>

theorem rankEvents_ranks:
  assumes run: "rankEvents s events = (s', ranked)"
  shows "mset ranked = mset (filter (\<lambda>r. rankable (s r)) events)
    \<and> (\<forall>r\<in>set ranked. winnerLine (s' r) = Some (lineOf s r) \<and> expectedWinner (s' r) \<noteq> tossUp)
    \<and> sorted (map (lineOf s) ranked)
    \<and> (\<forall>k. filter (\<lambda>r. lineOf s r = k) ranked =
            filter (\<lambda>r. lineOf s r = k) (filter (\<lambda>r. rankable (s r)) events))
    \<and> (distinct events \<longrightarrow>
         (\<forall>i<length ranked. confidenceRank (s' (ranked ! i)) = Some (int (length ranked) - int i))
         \<and> bij_betw (rankOf s') (set ranked) {1..int (length ranked)}
         \<and> (ranked \<noteq> [] \<longrightarrow>
               rankOf s' (hd ranked) = int (length ranked) \<and>
               (\<forall>r\<in>set ranked. lineOf s (hd ranked) \<le> lineOf s r) \<and>
               rankOf s' (last ranked) = 1 \<and>
               (\<forall>r\<in>set ranked. lineOf s r \<le> lineOf s (last ranked))))"
proof -
  let ?flt = "filter (\<lambda>r. rankable (s r)) events"
  have ranked: "ranked = sort_key (lineOf s) ?flt"
    using rankEvents_sorted_eq[of s events] run by simp
  have s': "s' = assignRanks s (length ranked) 0 ranked"
    using rankEvents_store[of s events] run by simp
  have c1: "mset ranked = mset ?flt" by (simp add: ranked)
  have fields: "\<And>r. winnerLine (s' r) = winnerLine (s r) \<and> expectedWinner (s' r) = expectedWinner (s r)"
  proof -
    fix r
    have "(s' r)\<lparr>confidenceRank := None\<rparr> = (s r)\<lparr>confidenceRank := None\<rparr>"
      unfolding s' by (rule assignRanks_fields)
    then have "winnerLine ((s' r)\<lparr>confidenceRank := None\<rparr>) = winnerLine ((s r)\<lparr>confidenceRank := None\<rparr>)"
      and "expectedWinner ((s' r)\<lparr>confidenceRank := None\<rparr>) = expectedWinner ((s r)\<lparr>confidenceRank := None\<rparr>)"
      by simp_all
    then show "winnerLine (s' r) = winnerLine (s r) \<and> expectedWinner (s' r) = expectedWinner (s r)"
      by simp
  qed
  have c2: "\<forall>r\<in>set ranked. winnerLine (s' r) = Some (lineOf s r) \<and> expectedWinner (s' r) \<noteq> tossUp"
    using fields by (auto simp: ranked rankable_def lineOf_def)
  have c3: "sorted (map (lineOf s) ranked)" by (simp add: ranked)
  have c4: "\<forall>k. filter (\<lambda>r. lineOf s r = k) ranked = filter (\<lambda>r. lineOf s r = k) ?flt"
    unfolding ranked by (simp only: sort_key_stable) simp
  have c5: "distinct events \<longrightarrow>
         (\<forall>i<length ranked. confidenceRank (s' (ranked ! i)) = Some (int (length ranked) - int i))
         \<and> bij_betw (rankOf s') (set ranked) {1..int (length ranked)}
         \<and> (ranked \<noteq> [] \<longrightarrow>
               rankOf s' (hd ranked) = int (length ranked) \<and>
               (\<forall>r\<in>set ranked. lineOf s (hd ranked) \<le> lineOf s r) \<and>
               rankOf s' (last ranked) = 1 \<and>
               (\<forall>r\<in>set ranked. lineOf s r \<le> lineOf s (last ranked)))"
  proof
    assume dist: "distinct events"
    have d: "distinct ranked" using dist by (simp add: ranked)
    have ix: "\<forall>i<length ranked. confidenceRank (s' (ranked ! i)) = Some (int (length ranked) - int i)"
      using assignRanks_nth[OF d, of _ s "length ranked" 0] by (simp add: s')
    then have rk: "\<forall>i<length ranked. rankOf s' (ranked ! i) = int (length ranked) - int i"
      by (simp add: rankOf_def)
    have bij: "bij_betw (rankOf s') (set ranked) {1..int (length ranked)}"
      by (rule ranks_image[OF d rk])
    have ends: "ranked \<noteq> [] \<longrightarrow>
          rankOf s' (hd ranked) = int (length ranked) \<and>
          (\<forall>r\<in>set ranked. lineOf s (hd ranked) \<le> lineOf s r) \<and>
          rankOf s' (last ranked) = 1 \<and>
          (\<forall>r\<in>set ranked. lineOf s r \<le> lineOf s (last ranked))"
    proof
      assume ne: "ranked \<noteq> []"
      then have len: "0 < length ranked" by simp
      have h: "hd ranked = ranked ! 0" using ne by (simp add: hd_conv_nth)
      have l: "last ranked = ranked ! (length ranked - 1)" using ne by (simp add: last_conv_nth)
      have r1: "rankOf s' (hd ranked) = int (length ranked)" using rk len h by simp
      have "int (length ranked) - int (length ranked - 1) = 1" using len by linarith
      moreover have "rankOf s' (ranked ! (length ranked - 1)) =
          int (length ranked) - int (length ranked - 1)"
        using rk len by (metis diff_less zero_less_one)
      ultimately have r2: "rankOf s' (last ranked) = 1" using l by simp
      have lo: "\<forall>r\<in>set ranked. lineOf s (hd ranked) \<le> lineOf s r"
      proof
        fix r assume "r \<in> set ranked"
        then obtain i where i: "i < length ranked" "r = ranked ! i" by (auto simp: in_set_conv_nth)
        have "map (lineOf s) ranked ! 0 \<le> map (lineOf s) ranked ! i"
          using c3 i(1) by (intro sorted_nth_mono) auto
        then show "lineOf s (hd ranked) \<le> lineOf s r" using i len h by simp
      qed
      have hi: "\<forall>r\<in>set ranked. lineOf s r \<le> lineOf s (last ranked)"
      proof
        fix r assume "r \<in> set ranked"
        then obtain i where i: "i < length ranked" "r = ranked ! i" by (auto simp: in_set_conv_nth)
        have "map (lineOf s) ranked ! i \<le> map (lineOf s) ranked ! (length ranked - 1)"
          using c3 i(1) by (intro sorted_nth_mono) auto
        then show "lineOf s r \<le> lineOf s (last ranked)" using i len l by simp
      qed
      show "rankOf s' (hd ranked) = int (length ranked) \<and>
            (\<forall>r\<in>set ranked. lineOf s (hd ranked) \<le> lineOf s r) \<and>
            rankOf s' (last ranked) = 1 \<and>
            (\<forall>r\<in>set ranked. lineOf s r \<le> lineOf s (last ranked))"
        using r1 r2 lo hi by blast
    qed
    show "(\<forall>i<length ranked. confidenceRank (s' (ranked ! i)) = Some (int (length ranked) - int i))
         \<and> bij_betw (rankOf s') (set ranked) {1..int (length ranked)}
         \<and> (ranked \<noteq> [] \<longrightarrow>
               rankOf s' (hd ranked) = int (length ranked) \<and>
               (\<forall>r\<in>set ranked. lineOf s (hd ranked) \<le> lineOf s r) \<and>
               rankOf s' (last ranked) = 1 \<and>
               (\<forall>r\<in>set ranked. lineOf s r \<le> lineOf s (last ranked)))"
      using ix bij ends by blast
  qed
  show ?thesis using c1 c2 c3 c4 c5 by blast
qed

theorem rankEvents_ranks_witness:
  "distinct exampleEvents \<and>
   snd (rankEvents exampleStore exampleEvents) = [2, 0, 3] \<and>
   map (rankOf (fst (rankEvents exampleStore exampleEvents))) [2, 0, 3] = [3, 2, 1] \<and>
   bij_betw (rankOf (fst (rankEvents exampleStore exampleEvents))) {2, 0, 3} {1..3}"
proof -
  have d: "distinct exampleEvents" by (simp add: exampleEvents_def)
  have r: "rankEvents exampleStore exampleEvents =
      (fst (rankEvents exampleStore exampleEvents), snd (rankEvents exampleStore exampleEvents))"
    by simp
  note t = rankEvents_ranks[OF r, unfolded example_ranked]
  have n: "\<forall>i<length [2, 0, 3 :: nat].
      confidenceRank (fst (rankEvents exampleStore exampleEvents) ([2, 0, 3] ! i)) =
        Some (int (length [2, 0, 3 :: nat]) - int i)"
    using t d by blast
  have "confidenceRank (fst (rankEvents exampleStore exampleEvents) 2) = Some 3"
    using n[rule_format, of 0] by simp
  moreover have "confidenceRank (fst (rankEvents exampleStore exampleEvents) 0) = Some 2"
    using n[rule_format, of 1] by simp
  moreover have "confidenceRank (fst (rankEvents exampleStore exampleEvents) 3) = Some 1"
    using n[rule_format, of 2] by simp
  ultimately have m: "map (rankOf (fst (rankEvents exampleStore exampleEvents))) [2, 0, 3] = [3, 2, 1]"
    by (simp add: rankOf_def)
  have "bij_betw (rankOf (fst (rankEvents exampleStore exampleEvents))) (set [2, 0, 3])
      {1..int (length [2, 0, 3 :: nat])}"
    using t d by blast
  then have b: "bij_betw (rankOf (fst (rankEvents exampleStore exampleEvents))) {2, 0, 3} {1..3}"
    by simp
  show ?thesis using d example_ranked m b by blast
qed

text \<open>
  Claim C9, as stated, fails: ranking the example week writes rank \<open>2\<close> into the input
  event at reference \<open>0\<close>, whose \<^verbatim>\<open>confidenceRank\<close> was \<^verbatim>\<open>null\<close> before the call.
\<close>

theorem rankEvents_mutates_input:
  "confidenceRank (exampleStore 0) = None \<and>
   confidenceRank (fst (rankEvents exampleStore exampleEvents) 0) = Some 2 \<and>
   fst (rankEvents exampleStore exampleEvents) 0 \<noteq> exampleStore 0"
proof -
  have a: "confidenceRank (exampleStore 0) = None" by code_simp
  have b: "confidenceRank (fst (rankEvents exampleStore exampleEvents) 0) = Some 2" by code_simp
  from a b have "fst (rankEvents exampleStore exampleEvents) 0 \<noteq> exampleStore 0" by auto
  with a b show ?thesis by blast
qed

text \<open>
  Claim C9, amended. \<^verbatim>\<open>transformEvents\<close> builds new event records from the data it
  reads and writes to nothing, which is why its model takes no store.
  \<^verbatim>\<open>rankEvents\<close> is a function of the events it is given and of nothing
  else, but it is not pure: it writes \<^verbatim>\<open>confidenceRank\<close> into every input event that
  passes its filter. That is all it changes: an event that is not in the input or does
  not pass the filter is left as it was, every field other than \<^verbatim>\<open>confidenceRank\<close> of
  every event keeps its value, and a second call on the same array, after the first one's
  writes, returns the same array and leaves the same store.
\<close>

theorem rankEvents_frame:
  assumes run: "rankEvents s events = (s', ranked)"
  shows "(\<forall>r. r \<notin> set events \<or> \<not> rankable (s r) \<longrightarrow> s' r = s r)
    \<and> (\<forall>r. (s' r)\<lparr>confidenceRank := None\<rparr> = (s r)\<lparr>confidenceRank := None\<rparr>)
    \<and> (\<forall>r\<in>set ranked. confidenceRank (s' r) \<noteq> None)
    \<and> rankEvents s' events = (s', ranked)"
proof -
  let ?flt = "filter (\<lambda>r. rankable (s r)) events"
  have ranked: "ranked = arraySort (\<lambda>a b. lineDiff (s a) (s b)) ?flt"
    using run by (simp add: rankEvents_def Let_def)
  have s': "s' = assignRanks s (length ranked) 0 ranked"
    using rankEvents_store[of s events] run by simp
  have set_ranked: "set ranked = {r \<in> set events. rankable (s r)}"
    using rankEvents_sorted_eq[of s events] run by simp
  have f1: "\<forall>r. r \<notin> set events \<or> \<not> rankable (s r) \<longrightarrow> s' r = s r"
    using set_ranked by (auto simp: s' intro: assignRanks_other)
  have f2: "\<forall>r. (s' r)\<lparr>confidenceRank := None\<rparr> = (s r)\<lparr>confidenceRank := None\<rparr>"
    unfolding s' by (simp add: assignRanks_fields)
  have f3: "\<forall>r\<in>set ranked. confidenceRank (s' r) \<noteq> None"
    unfolding s' by (simp add: assignRanks_written)
  have upd: "\<And>r. s' r = (s r)\<lparr>confidenceRank := confidenceRank (s' r)\<rparr>"
    using f2 by (intro same_but_rank) simp
  have rk: "\<And>r. rankable (s' r) = rankable (s r)"
    by (subst upd) (simp add: rankable_update)
  have ld: "\<And>a b. lineDiff (s' a) (s' b) = lineDiff (s a) (s b)"
    by (subst upd, subst (2) upd) (simp add: lineDiff_update)
  have again: "assignRanks s' (length ranked) 0 ranked = assignRanks s (length ranked) 0 ranked"
  proof (rule assignRanks_cong)
    show "\<forall>r. r \<in> set ranked \<or> s' r = s r"
      unfolding s' using assignRanks_other by blast
    show "\<forall>r. (s' r)\<lparr>confidenceRank := None\<rparr> = (s r)\<lparr>confidenceRank := None\<rparr>" by (rule f2)
  qed
  have f4: "rankEvents s' events = (s', ranked)"
    using again by (simp add: rankEvents_def Let_def rk ld ranked[symmetric] s'[symmetric])
  show ?thesis using f1 f2 f3 f4 by blast
qed

theorem rankEvents_frame_witness:
  "fst (rankEvents exampleStore exampleEvents) 1 = exampleStore 1 \<and>
   confidenceRank (fst (rankEvents exampleStore exampleEvents) 2) \<noteq> None \<and>
   rankEvents (fst (rankEvents exampleStore exampleEvents)) exampleEvents =
     rankEvents exampleStore exampleEvents"
proof -
  have r: "rankEvents exampleStore exampleEvents =
      (fst (rankEvents exampleStore exampleEvents), snd (rankEvents exampleStore exampleEvents))"
    by simp
  note t = rankEvents_frame[OF r]
  have nr: "\<not> rankable (exampleStore 1)" by code_simp
  have a: "fst (rankEvents exampleStore exampleEvents) 1 = exampleStore 1"
    using t nr by blast
  have "2 \<in> set (snd (rankEvents exampleStore exampleEvents))"
    by (simp add: example_ranked)
  then have b: "confidenceRank (fst (rankEvents exampleStore exampleEvents) 2) \<noteq> None"
    using t by blast
  have c: "rankEvents (fst (rankEvents exampleStore exampleEvents)) exampleEvents =
     rankEvents exampleStore exampleEvents"
    using t by simp
  show ?thesis using a b c by blast
qed

section \<open>The retry loop\<close>

lemma isHttpError_NotOk: "isHttpError (httpErrorMessage status statusText)"
  by (simp add: isHttpError_def httpErrorMessage_def)

lemma retryLoop_run:
  assumes "i < retries"
  shows "let r = retryLoop env i d ws in
     i < attempts r \<and> attempts r \<le> retries \<and>
     waits r = ws @ map (\<lambda>j. d * 2 ^ (j - i)) [i..<attempts r - 1] \<and>
     (\<forall>j. i \<le> j \<and> j < attempts r - 1 \<longrightarrow> failsHttp env j) \<and>
     outcome r = tryBlock (env (attempts r - 1)) \<and>
     (attempts r < retries \<longrightarrow> \<not> failsHttp env (attempts r - 1))"
  using assms
proof (induction env i d ws rule: retryLoop.induct)
  case (1 env i delay ws)
  show ?case
  proof (cases "tryBlock (env i)")
    case (Inr gs)
    then show ?thesis using "1.prems"
      by (auto simp: retryLoop.simps[of env i] failsHttp_def)
  next
    case (Inl msg)
    show ?thesis
    proof (cases "isHttpError msg \<and> i < retries - 1")
      case False
      then show ?thesis using "1.prems" Inl
        by (auto simp: retryLoop.simps[of env i] failsHttp_def)
    next
      case True
      then have si: "Suc i < retries" by linarith
      let ?r = "retryLoop env (Suc i) (delay * 2) (ws @ [delay])"
      have eq: "retryLoop env i delay ws = ?r"
        using "1.prems" Inl True by (simp add: retryLoop.simps[of env i])
      note ih = "1.IH"[OF "1.prems" Inl True si, unfolded Let_def]
      have fi: "failsHttp env i" using Inl True by (simp add: failsHttp_def)
      have a: "Suc i < attempts ?r" using ih by blast
      have m: "[i..<attempts ?r - 1] = i # [Suc i..<attempts ?r - 1]"
        using a by (simp add: upt_conv_Cons)
      have w: "waits ?r = ws @ map (\<lambda>j. delay * 2 ^ (j - i)) [i..<attempts ?r - 1]"
      proof -
        have w1: "waits ?r =
            (ws @ [delay]) @ map (\<lambda>j. delay * 2 * 2 ^ (j - Suc i)) [Suc i..<attempts ?r - 1]"
          using ih by blast
        have w2: "map (\<lambda>j. delay * 2 * 2 ^ (j - Suc i)) [Suc i..<attempts ?r - 1]
           = map (\<lambda>j. delay * 2 ^ (j - i)) [Suc i..<attempts ?r - 1]"
        proof (rule map_cong[OF refl])
          fix j assume "j \<in> set [Suc i..<attempts ?r - 1]"
          then have "j - i = Suc (j - Suc i)" by auto
          then show "delay * 2 * 2 ^ (j - Suc i) = delay * 2 ^ (j - i)" by simp
        qed
        have w3: "map (\<lambda>j. delay * 2 ^ (j - i)) [i..<attempts ?r - 1] =
            delay # map (\<lambda>j. delay * 2 ^ (j - i)) [Suc i..<attempts ?r - 1]"
          unfolding m by simp
        show ?thesis unfolding w1 w2 w3 by simp
      qed
      have h: "\<forall>j. i \<le> j \<and> j < attempts ?r - 1 \<longrightarrow> failsHttp env j"
      proof (intro allI impI)
        fix j assume j: "i \<le> j \<and> j < attempts ?r - 1"
        show "failsHttp env j"
        proof (cases "j = i")
          case True
          then show ?thesis using fi by simp
        next
          case False
          then have "Suc i \<le> j" using j by simp
          then show ?thesis using ih j by blast
        qed
      qed
      show ?thesis unfolding Let_def eq using a w h ih by auto
    qed
  qed
qed

lemma fetchDeepSchedule_run:
  "let r = fetchDeepSchedule env in
     0 < attempts r \<and> attempts r \<le> 5 \<and>
     waits r = map (\<lambda>j. 1000 * 2 ^ j) [0..<attempts r - 1] \<and>
     (\<forall>j. j < attempts r - 1 \<longrightarrow> failsHttp env j) \<and>
     outcome r = tryBlock (env (attempts r - 1)) \<and>
     (attempts r < 5 \<longrightarrow> \<not> failsHttp env (attempts r - 1))"
proof -
  have "0 < retries" by (simp add: retries_def)
  from retryLoop_run[OF this, of env 1000 "[]"] show ?thesis
    by (simp add: fetchDeepSchedule_def Let_def retries_def)
qed

lemma backoff_prefix:
  assumes "0 < n" "n \<le> 5"
  shows "map (\<lambda>j. 1000 * 2 ^ j) [0..<n - 1] = take (n - 1) [1000, 2000, 4000, 8000 :: nat]"
proof -
  from assms have "n = 1 \<or> n = 2 \<or> n = 3 \<or> n = 4 \<or> n = 5" by auto
  then show ?thesis by (auto simp: upt_conv_Cons)
qed

text \<open>
  A call always ends the way one of its attempts ends: the statement after the loop
  (line 578) is never reached.
\<close>

lemma fetchDeepSchedule_last_attempt:
  "attempts (fetchDeepSchedule env) - 1 < 5 \<and>
   outcome (fetchDeepSchedule env) = tryBlock (env (attempts (fetchDeepSchedule env) - 1))"
  using fetchDeepSchedule_run[of env] by (auto simp: Let_def)

text \<open>Some runs of the loop.\<close>

lemma httpErrorMessage_503:
  "httpErrorMessage 503 ''Service Unavailable'' = ''HTTP Error 503: Service Unavailable''"
  by code_simp

lemma httpErrorMessage_distinct:
  "''HTTP Error 503: Service Unavailable'' \<noteq> exhaustedMessage"
  by (simp add: exhaustedMessage_def)

text \<open>Five HTTP errors in a row: the call ends with the fifth one.\<close>

lemma fetchDeepSchedule_five_failures:
  assumes "\<forall>j\<le>3. failsHttp env j"
  shows "attempts (fetchDeepSchedule env) = 5 \<and> outcome (fetchDeepSchedule env) = tryBlock (env 4)"
proof -
  note run = fetchDeepSchedule_run[of env, unfolded Let_def]
  have "\<not> attempts (fetchDeepSchedule env) < 5"
  proof
    assume lt: "attempts (fetchDeepSchedule env) < 5"
    then have "attempts (fetchDeepSchedule env) - 1 \<le> 3" by simp
    with assms have "failsHttp env (attempts (fetchDeepSchedule env) - 1)" by blast
    with run lt show False by blast
  qed
  moreover have "attempts (fetchDeepSchedule env) \<le> 5" using run by blast
  ultimately have a: "attempts (fetchDeepSchedule env) = 5" by simp
  have "outcome (fetchDeepSchedule env) = tryBlock (env (attempts (fetchDeepSchedule env) - 1))"
    using run by blast
  then show ?thesis using a by simp
qed

lemma failsHttp_NotOk: "env i = NotOk status statusText \<Longrightarrow> failsHttp env i"
  by (simp add: failsHttp_def tryBlock_def isHttpError_NotOk)

lemma always503_run:
  "attempts (fetchDeepSchedule always503) = 5"
  "outcome (fetchDeepSchedule always503) = Inl ''HTTP Error 503: Service Unavailable''"
proof -
  have "\<forall>j\<le>3. failsHttp always503 j"
    by (simp add: failsHttp_NotOk[of always503 _ 503 "''Service Unavailable''"] always503_def)
  from fetchDeepSchedule_five_failures[OF this]
  show "attempts (fetchDeepSchedule always503) = 5"
    and "outcome (fetchDeepSchedule always503) = Inl ''HTTP Error 503: Service Unavailable''"
    by (simp_all add: always503_def tryBlock_def httpErrorMessage_503)
qed

lemma recoversOnFifth_run: "outcome (fetchDeepSchedule recoversOnFifth) = Inr []"
proof -
  have "\<forall>j\<le>3. failsHttp recoversOnFifth j"
    by (simp add: failsHttp_NotOk[of recoversOnFifth _ 503 "''Service Unavailable''"] recoversOnFifth_def)
  from fetchDeepSchedule_five_failures[OF this]
  show ?thesis
    by (simp add: recoversOnFifth_def tryBlock_def extractTeams_def)
qed

lemma emptySchedule_run: "outcome (fetchDeepSchedule emptySchedule) = Inr []"
  by (simp add: fetchDeepSchedule_def retryLoop.simps[of _ 0] retries_def emptySchedule_def
      tryBlock_def extractTeams_def)

text \<open>
  Claim C3, as stated, fails: the loop does not look at the response to decide whether to
  try again, only at the message of the error. An attempt that ends without any response,
  in an error whose message holds the words \<^verbatim>\<open>HTTP Error\<close>, is retried like a response
  that is not \<^verbatim>\<open>ok\<close>: five attempts, four waits, and no response among them.
\<close>

theorem fetchDeepSchedule_retries_other_failure:
  "map proxyFails [0, 1, 2, 3, 4] = replicate 5 (Threw ''proxy said: HTTP Error upstream'') \<and>
   attempts (fetchDeepSchedule proxyFails) = 5 \<and>
   waits (fetchDeepSchedule proxyFails) = [1000, 2000, 4000, 8000] \<and>
   outcome (fetchDeepSchedule proxyFails) = Inl ''proxy said: HTTP Error upstream''"
proof -
  have m: "map proxyFails [0, 1, 2, 3, 4] = replicate 5 (Threw ''proxy said: HTTP Error upstream'')"
    by (simp add: proxyFails_def numeral_eq_Suc)
  have h: "isHttpError ''proxy said: HTTP Error upstream''" by code_simp
  then have f: "\<forall>j\<le>3. failsHttp proxyFails j"
    by (simp add: failsHttp_def proxyFails_def tryBlock_def)
  from fetchDeepSchedule_five_failures[OF f]
  have a: "attempts (fetchDeepSchedule proxyFails) = 5"
    and o: "outcome (fetchDeepSchedule proxyFails) = Inl ''proxy said: HTTP Error upstream''"
    by (simp_all add: proxyFails_def tryBlock_def)
  have "waits (fetchDeepSchedule proxyFails) =
      map (\<lambda>j. 1000 * 2 ^ j) [0..<attempts (fetchDeepSchedule proxyFails) - 1]"
    using fetchDeepSchedule_run[of proxyFails] by (simp add: Let_def)
  then have w: "waits (fetchDeepSchedule proxyFails) = [1000, 2000, 4000, 8000]"
    using backoff_prefix[of 5] by (simp add: a)
  show ?thesis using m a w o by blast
qed

text \<open>
  Claim C3, amended. Whatever the network does, the root fetch runs its \<^verbatim>\<open>try\<close> block at
  least once and at most five times; the delays it waits are, in order, the first
  \<open>attempts - 1\<close> of 1000, 2000, 4000 and 8000 milliseconds, exactly. What is retried is
  an error whose message holds the words \<^verbatim>\<open>HTTP Error\<close>: every attempt but the last one
  failed with such an error, and such a failure among the first four attempts is always
  followed by another attempt; a failure whose message does not hold those words ends
  the call at once with that very error; and the error thrown for a response that is
  not \<^verbatim>\<open>ok\<close> always holds them.
\<close>

theorem fetchDeepSchedule_retries:
  "let r = fetchDeepSchedule env in
     1 \<le> attempts r \<and> attempts r \<le> 5 \<and>
     waits r = take (attempts r - 1) [1000, 2000, 4000, 8000] \<and>
     (\<forall>i. i < attempts r - 1 \<longrightarrow> failsHttp env i) \<and>
     (\<forall>i. i < 4 \<and> (\<forall>j\<le>i. failsHttp env j) \<longrightarrow> Suc i < attempts r) \<and>
     (\<forall>i msg. i < attempts r \<and> tryBlock (env i) = Inl msg \<and> \<not> isHttpError msg \<longrightarrow>
        attempts r = Suc i \<and> outcome r = Inl msg \<and> waits r = take i [1000, 2000, 4000, 8000]) \<and>
     (\<forall>i status statusText. env i = NotOk status statusText \<longrightarrow> failsHttp env i)"
proof -
  let ?r = "fetchDeepSchedule env"
  note run = fetchDeepSchedule_run[of env, unfolded Let_def]
  have a1: "1 \<le> attempts ?r" and a2: "attempts ?r \<le> 5" using run by auto
  have w: "waits ?r = take (attempts ?r - 1) [1000, 2000, 4000, 8000]"
    using run backoff_prefix[of "attempts ?r"] by simp
  have h: "\<forall>i. i < attempts ?r - 1 \<longrightarrow> failsHttp env i" using run by blast
  have last: "attempts ?r < 5 \<longrightarrow> \<not> failsHttp env (attempts ?r - 1)" using run by blast
  have out: "outcome ?r = tryBlock (env (attempts ?r - 1))" using run by blast
  have retried: "\<forall>i. i < 4 \<and> (\<forall>j\<le>i. failsHttp env j) \<longrightarrow> Suc i < attempts ?r"
  proof (intro allI impI)
    fix i assume i: "i < 4 \<and> (\<forall>j\<le>i. failsHttp env j)"
    show "Suc i < attempts ?r"
    proof (rule ccontr)
      assume "\<not> Suc i < attempts ?r"
      then have le: "attempts ?r - 1 \<le> i" and lt: "attempts ?r < 5" using i by auto
      from le i have "failsHttp env (attempts ?r - 1)" by blast
      with last lt show False by blast
    qed
  qed
  have other: "\<forall>i msg. i < attempts ?r \<and> tryBlock (env i) = Inl msg \<and> \<not> isHttpError msg \<longrightarrow>
        attempts ?r = Suc i \<and> outcome ?r = Inl msg \<and> waits ?r = take i [1000, 2000, 4000, 8000]"
  proof (intro allI impI)
    fix i msg
    assume i: "i < attempts ?r \<and> tryBlock (env i) = Inl msg \<and> \<not> isHttpError msg"
    then have nf: "\<not> failsHttp env i" by (simp add: failsHttp_def)
    have "\<not> i < attempts ?r - 1" using h nf by blast
    with i have e: "attempts ?r = Suc i" by linarith
    then show "attempts ?r = Suc i \<and> outcome ?r = Inl msg \<and> waits ?r = take i [1000, 2000, 4000, 8000]"
      using out i w by simp
  qed
  have cls: "\<forall>i status statusText. env i = NotOk status statusText \<longrightarrow> failsHttp env i"
    by (simp add: failsHttp_def tryBlock_def isHttpError_NotOk)
  show ?thesis unfolding Let_def using a1 a2 w h retried other cls by blast
qed

theorem fetchDeepSchedule_retries_witness:
  "attempts (fetchDeepSchedule recoversOnFifth) = 5 \<and>
   waits (fetchDeepSchedule recoversOnFifth) = [1000, 2000, 4000, 8000] \<and>
   outcome (fetchDeepSchedule recoversOnFifth) = Inr [] \<and>
   attempts (fetchDeepSchedule transportFails) = 1 \<and>
   waits (fetchDeepSchedule transportFails) = [] \<and>
   outcome (fetchDeepSchedule transportFails) = Inl ''Failed to fetch''"
proof -
  note t = fetchDeepSchedule_retries[of recoversOnFifth, unfolded Let_def]
  have f: "(3::nat) < 4 \<and> (\<forall>j\<le>3. failsHttp recoversOnFifth j)"
    by (simp add: failsHttp_def recoversOnFifth_def tryBlock_def isHttpError_NotOk)
  have r: "\<forall>i. i < 4 \<and> (\<forall>j\<le>i. failsHttp recoversOnFifth j) \<longrightarrow>
      Suc i < attempts (fetchDeepSchedule recoversOnFifth)"
    using t by blast
  have "Suc 3 < attempts (fetchDeepSchedule recoversOnFifth)"
    using r[rule_format, OF f] .
  moreover have "attempts (fetchDeepSchedule recoversOnFifth) \<le> 5" using t by blast
  ultimately have a: "attempts (fetchDeepSchedule recoversOnFifth) = 5" by simp
  have "waits (fetchDeepSchedule recoversOnFifth) =
      take (attempts (fetchDeepSchedule recoversOnFifth) - 1) [1000, 2000, 4000, 8000]"
    using t by blast
  then have w: "waits (fetchDeepSchedule recoversOnFifth) = [1000, 2000, 4000, 8000]"
    by (simp add: a)
  note u = fetchDeepSchedule_retries[of transportFails, unfolded Let_def]
  have m: "tryBlock (transportFails 0) = Inl ''Failed to fetch''"
    by (simp add: transportFails_def tryBlock_def)
  have n: "\<not> isHttpError ''Failed to fetch''" by code_simp
  have p: "0 < attempts (fetchDeepSchedule transportFails)" using u by auto
  have o: "\<forall>i msg. i < attempts (fetchDeepSchedule transportFails) \<and>
        tryBlock (transportFails i) = Inl msg \<and> \<not> isHttpError msg \<longrightarrow>
        attempts (fetchDeepSchedule transportFails) = Suc i \<and>
        outcome (fetchDeepSchedule transportFails) = Inl msg \<and>
        waits (fetchDeepSchedule transportFails) = take i [1000, 2000, 4000, 8000]"
    using u by blast
  have "attempts (fetchDeepSchedule transportFails) = Suc 0 \<and>
        outcome (fetchDeepSchedule transportFails) = Inl ''Failed to fetch'' \<and>
        waits (fetchDeepSchedule transportFails) = take 0 [1000, 2000, 4000, 8000]"
    using o[rule_format, of 0 "''Failed to fetch''"] m n p by blast
  then show ?thesis using a w recoversOnFifth_run by simp
qed

text \<open>
  Claim C4 does not hold of the code. When all five attempts get a response that is not
  \<^verbatim>\<open>ok\<close>, the fifth pass through the \<^verbatim>\<open>catch\<close> fails its test \<^verbatim>\<open>i < retries - 1\<close> and throws
  the fifth HTTP error again; the statement after the loop, which throws the error about
  having run out of retries, is never reached.
\<close>

theorem fetchDeepSchedule_exhausted_rethrows:
  "attempts (fetchDeepSchedule always503) = 5 \<and>
   outcome (fetchDeepSchedule always503) = Inl ''HTTP Error 503: Service Unavailable'' \<and>
   outcome (fetchDeepSchedule always503) \<noteq> Inl exhaustedMessage"
  using always503_run httpErrorMessage_distinct by simp

section \<open>The game normalizer\<close>

lemma teamNameOf_nonempty: "teamNameOf c \<noteq> []"
  by (auto simp: teamNameOf_def orDefault_def split: option.splits)

lemma find_append:
  "find P (xs @ ys) = (case find P xs of None \<Rightarrow> find P ys | Some x \<Rightarrow> Some x)"
  by (induction xs) auto

lemma lastWith_Cons:
  "lastWith role (c # cs) =
     (case lastWith role cs of
        None \<Rightarrow> if homeAway c = role then Some c else None
      | Some x \<Rightarrow> Some x)"
  by (simp add: lastWith_def find_append split: option.splits)

lemma fold_sideStep:
  "fold (sideStep m) comps acc =
     (case lastWith ''home'' comps of None \<Rightarrow> fst acc | Some c \<Rightarrow> Some (sideData m c),
      case lastWith ''away'' comps of None \<Rightarrow> snd acc | Some c \<Rightarrow> Some (sideData m c))"
proof (induction comps arbitrary: acc)
  case Nil
  then show ?case by (simp add: lastWith_def)
next
  case (Cons c cs)
  have "fold (sideStep m) (c # cs) acc = fold (sideStep m) cs (sideStep m c acc)" by simp
  also have "\<dots> =
     (case lastWith ''home'' cs of None \<Rightarrow> fst (sideStep m c acc) | Some c \<Rightarrow> Some (sideData m c),
      case lastWith ''away'' cs of None \<Rightarrow> snd (sideStep m c acc) | Some c \<Rightarrow> Some (sideData m c))"
    by (rule Cons.IH)
  also have "\<dots> =
     (case lastWith ''home'' (c # cs) of None \<Rightarrow> fst acc | Some c \<Rightarrow> Some (sideData m c),
      case lastWith ''away'' (c # cs) of None \<Rightarrow> snd acc | Some c \<Rightarrow> Some (sideData m c))"
    by (simp add: lastWith_Cons sideStep_def split: option.splits)
  finally show ?case .
qed

lemma sidesOf_eq:
  "sidesOf m comps =
     (map_option (sideData m) (lastWith ''home'' comps),
      map_option (sideData m) (lastWith ''away'' comps))"
  by (simp add: sidesOf_def fold_sideStep split: option.splits)

lemma sidesOf_teamName:
  "sidesOf m comps = (Some homeData, Some awayData) \<Longrightarrow> teamName homeData \<noteq> [] \<and> teamName awayData \<noteq> []"
  by (auto simp: sidesOf_eq sideData_def teamNameOf_nonempty)

lemma extractGame_eventSides:
  assumes "extractGame ev = Some g"
  shows "\<exists>homeData awayData. eventSides ev = (Some homeData, Some awayData) \<and>
     (homeStatus g, awayStatus g, homeScore g, awayScore g) =
        gameStatus (statusState ev) (sd_score homeData) (sd_score awayData) \<and>
     homeOdds g = teamOdds homeData \<and> awayOdds g = teamOdds awayData"
  using assms
  by (auto simp: extractGame_def eventSides_def Let_def
      split: option.splits list.splits if_splits prod.splits)

lemma eventSides_extractGame:
  assumes "eventSides ev = (Some homeData, Some awayData)"
  shows "\<exists>g. extractGame ev = Some g \<and>
     (homeStatus g, awayStatus g, homeScore g, awayScore g) =
        gameStatus (statusState ev) (sd_score homeData) (sd_score awayData) \<and>
     homeOdds g = teamOdds homeData \<and> awayOdds g = teamOdds awayData"
  using assms sidesOf_teamName
  by (auto simp: extractGame_def eventSides_def Let_def
      split: option.splits list.splits if_splits prod.splits)
















lemma oddsSourceOf_update: "oddsSourceOf (p\<lparr>moneyLines := x\<rparr>) = oddsSourceOf p"
  by (simp add: oddsSourceOf_def odds_source.truncate_def odds_entry.defs split: list.splits)

lemma detailOdds_home:
  assumes "truthyTeamId homeComp = Some ih" "homeTeamOdds src = Some obj" "pickMoneyline obj = Some v"
  shows "map_of (detailOdds awayComp homeComp (Some src)) ih = Some (formatMoneyLine (Some v))"
  using assms by (simp add: detailOdds_def putTeamOdds_def update_conv')

lemma detailOdds_away:
  assumes "truthyTeamId awayComp = Some ia" "awayTeamOdds src = Some obj" "pickMoneyline obj = Some v"
    and "truthyTeamId homeComp \<noteq> Some ia"
  shows "map_of (detailOdds awayComp homeComp (Some src)) ia = Some (formatMoneyLine (Some v))"
  using assms
  by (auto simp: detailOdds_def putTeamOdds_def update_conv' split: option.splits)

text \<open>
  What is found under an explicit \<^verbatim>\<open>null\<close>: \<^verbatim>\<open>Moneyline: null\<close> is not \<^verbatim>\<open>undefined\<close>, so it
  is the value taken, and the team's entry holds \<^verbatim>\<open>null\<close> whatever \<^verbatim>\<open>moneyLine\<close> says.
\<close>

lemma pickMoneyline_null: "Moneyline obj = Some JNull \<Longrightarrow> pickMoneyline obj = Some JNull"
  by (simp add: pickMoneyline_def)

text \<open>
  Claim C6. In the odds map of a competition: only entry \<open>0\<close> of the odds array counts;
  its detail source is \<^verbatim>\<open>items[0]\<close> when \<^verbatim>\<open>items\<close> is non-empty and the entry itself
  otherwise; the moneyline of a team is the \<^verbatim>\<open>Moneyline\<close> field when that is defined and
  the \<^verbatim>\<open>moneyLine\<close> field otherwise, and it is what the map holds, formatted, under the
  team's id (for the away team, unless the home team has the same id); when the detail
  source gave any entry the map is made of those entries whatever the flat array holds;
  and when it gave none the map is read from the flat array, if there is one.
\<close>

theorem buildOddsMap_precedence:
  fixes comps :: "competitor list" and primaryOdds :: odds_entry
  defines "awayComp \<equiv> find (\<lambda>c. homeAway c = ''away'') comps"
    and "homeComp \<equiv> find (\<lambda>c. homeAway c = ''home'') comps"
  defines "primary \<equiv> detailOdds awayComp homeComp (oddsSourceOf primaryOdds)"
  shows "buildOddsMap comps (Some (primaryOdds # others)) = buildOddsMap comps (Some [primaryOdds])
    \<and> (\<forall>x xs. items primaryOdds = x # xs \<longrightarrow> oddsSourceOf primaryOdds = x)
    \<and> (items primaryOdds = [] \<longrightarrow>
         (\<exists>src. oddsSourceOf primaryOdds = Some src \<and>
                awayTeamOdds src = awayTeamOdds primaryOdds \<and>
                homeTeamOdds src = homeTeamOdds primaryOdds))
    \<and> (\<forall>obj v. Moneyline obj = Some v \<longrightarrow> pickMoneyline obj = Some v)
    \<and> (\<forall>obj. Moneyline obj = None \<longrightarrow> pickMoneyline obj = moneyLine obj)
    \<and> (\<forall>src ih obj v. oddsSourceOf primaryOdds = Some src \<and> truthyTeamId homeComp = Some ih \<and>
          homeTeamOdds src = Some obj \<and> pickMoneyline obj = Some v \<longrightarrow>
          map_of (buildOddsMap comps (Some (primaryOdds # others))) ih =
            Some (formatMoneyLine (Some v)))
    \<and> (\<forall>src ia obj v. oddsSourceOf primaryOdds = Some src \<and> truthyTeamId awayComp = Some ia \<and>
          awayTeamOdds src = Some obj \<and> pickMoneyline obj = Some v \<and>
          truthyTeamId homeComp \<noteq> Some ia \<longrightarrow>
          map_of (buildOddsMap comps (Some (primaryOdds # others))) ia =
            Some (formatMoneyLine (Some v)))
    \<and> (primary \<noteq> [] \<longrightarrow>
          (\<forall>flat. buildOddsMap comps (Some (primaryOdds\<lparr>moneyLines := flat\<rparr> # others)) = primary))
    \<and> (primary = [] \<longrightarrow>
          buildOddsMap comps (Some (primaryOdds # others)) =
            (case moneyLines primaryOdds of Some arr \<Rightarrow> fold putFlatOdds arr [] | None \<Rightarrow> []))"
proof -
  have b: "\<And>p. buildOddsMap comps (Some (p # others)) =
      (let m = detailOdds awayComp homeComp (oddsSourceOf p)
       in if m = [] then (case moneyLines p of Some arr \<Rightarrow> fold putFlatOdds arr m | None \<Rightarrow> m)
          else m)"
    by (simp add: buildOddsMap_def awayComp_def homeComp_def)
  have c1: "buildOddsMap comps (Some (primaryOdds # others)) = buildOddsMap comps (Some [primaryOdds])"
    by (simp add: buildOddsMap_def)
  have c2: "\<forall>x xs. items primaryOdds = x # xs \<longrightarrow> oddsSourceOf primaryOdds = x"
    by (simp add: oddsSourceOf_def)
  have c3: "items primaryOdds = [] \<longrightarrow>
         (\<exists>src. oddsSourceOf primaryOdds = Some src \<and>
                awayTeamOdds src = awayTeamOdds primaryOdds \<and>
                homeTeamOdds src = homeTeamOdds primaryOdds)"
    by (simp add: oddsSourceOf_def odds_source.truncate_def)
  have c4: "\<forall>obj v. Moneyline obj = Some v \<longrightarrow> pickMoneyline obj = Some v"
    by (simp add: pickMoneyline_def)
  have c5: "\<forall>obj. Moneyline obj = None \<longrightarrow> pickMoneyline obj = moneyLine obj"
    by (simp add: pickMoneyline_def)
  have ne: "\<And>k x. map_of primary k = Some x \<Longrightarrow> buildOddsMap comps (Some (primaryOdds # others)) = primary"
  proof -
    fix k x assume "map_of primary k = Some x"
    then have "primary \<noteq> []" by auto
    then show "buildOddsMap comps (Some (primaryOdds # others)) = primary"
      by (simp add: b primary_def Let_def)
  qed
  have c6: "\<forall>src ih obj v. oddsSourceOf primaryOdds = Some src \<and> truthyTeamId homeComp = Some ih \<and>
          homeTeamOdds src = Some obj \<and> pickMoneyline obj = Some v \<longrightarrow>
          map_of (buildOddsMap comps (Some (primaryOdds # others))) ih =
            Some (formatMoneyLine (Some v))"
  proof (intro allI impI)
    fix src ih obj v
    assume a: "oddsSourceOf primaryOdds = Some src \<and> truthyTeamId homeComp = Some ih \<and>
          homeTeamOdds src = Some obj \<and> pickMoneyline obj = Some v"
    then have m: "map_of primary ih = Some (formatMoneyLine (Some v))"
      unfolding primary_def using detailOdds_home[of homeComp ih src obj v awayComp] by simp
    show "map_of (buildOddsMap comps (Some (primaryOdds # others))) ih =
            Some (formatMoneyLine (Some v))"
      using ne[OF m] m by simp
  qed
  have c7: "\<forall>src ia obj v. oddsSourceOf primaryOdds = Some src \<and> truthyTeamId awayComp = Some ia \<and>
          awayTeamOdds src = Some obj \<and> pickMoneyline obj = Some v \<and>
          truthyTeamId homeComp \<noteq> Some ia \<longrightarrow>
          map_of (buildOddsMap comps (Some (primaryOdds # others))) ia =
            Some (formatMoneyLine (Some v))"
  proof (intro allI impI)
    fix src ia obj v
    assume a: "oddsSourceOf primaryOdds = Some src \<and> truthyTeamId awayComp = Some ia \<and>
          awayTeamOdds src = Some obj \<and> pickMoneyline obj = Some v \<and>
          truthyTeamId homeComp \<noteq> Some ia"
    then have m: "map_of primary ia = Some (formatMoneyLine (Some v))"
      unfolding primary_def using detailOdds_away[of awayComp ia src obj v homeComp] by simp
    show "map_of (buildOddsMap comps (Some (primaryOdds # others))) ia =
            Some (formatMoneyLine (Some v))"
      using ne[OF m] m by simp
  qed
  have c8: "primary \<noteq> [] \<longrightarrow>
          (\<forall>flat. buildOddsMap comps (Some (primaryOdds\<lparr>moneyLines := flat\<rparr> # others)) = primary)"
    by (simp add: b primary_def Let_def oddsSourceOf_update)
  have c9: "primary = [] \<longrightarrow>
          buildOddsMap comps (Some (primaryOdds # others)) =
            (case moneyLines primaryOdds of Some arr \<Rightarrow> fold putFlatOdds arr [] | None \<Rightarrow> [])"
    by (simp add: b primary_def Let_def)
  show ?thesis using c1 c2 c3 c4 c5 c6 c7 c8 c9 by blast
qed

theorem buildOddsMap_precedence_witness:
  "map_of (buildOddsMap (exampleCompetitors ScoreOther ScoreOther) (Some [exampleOdds])) ''7'' =
     Some (Some ''-130'') \<and>
   map_of (buildOddsMap (exampleCompetitors ScoreOther ScoreOther) (Some [exampleOdds])) ''12'' =
     Some (Some ''+110'') \<and>
   map homeOdds (extractTeams [finalGame]) = [''-130'']"
proof -
  let ?comps = "exampleCompetitors ScoreOther ScoreOther"
  note t = buildOddsMap_precedence[where primaryOdds = exampleOdds and comps = ?comps and others = "[]"]
  have i: "items exampleOdds = []" by (simp add: exampleOdds_def)
  then obtain src where src: "oddsSourceOf exampleOdds = Some src"
    and sa: "awayTeamOdds src = awayTeamOdds exampleOdds"
    and sh: "homeTeamOdds src = homeTeamOdds exampleOdds"
    using t by blast
  have h: "homeTeamOdds src = Some \<lparr>Moneyline = Some (JNum (- 130)), moneyLine = None\<rparr>"
    using sh by (simp add: exampleOdds_def)
  have a: "awayTeamOdds src = Some \<lparr>Moneyline = None, moneyLine = Some (JNum 110)\<rparr>"
    using sa by (simp add: exampleOdds_def)
  have ph: "pickMoneyline \<lparr>Moneyline = Some (JNum (- 130)), moneyLine = None\<rparr> = Some (JNum (- 130))"
    using t by simp
  have pa: "pickMoneyline \<lparr>Moneyline = None, moneyLine = Some (JNum 110)\<rparr> = Some (JNum 110)"
    using t by simp
  have ih: "truthyTeamId (find (\<lambda>c. homeAway c = ''home'') ?comps) = Some ''7''"
    by (simp add: exampleCompetitors_def exampleTeam_def truthyTeamId_def truthyStr_def)
  have ia: "truthyTeamId (find (\<lambda>c. homeAway c = ''away'') ?comps) = Some ''12''"
    by (simp add: exampleCompetitors_def exampleTeam_def truthyTeamId_def truthyStr_def)
  have f1: "formatMoneyLine (Some (JNum (- 130))) = Some ''-130''" by code_simp
  have f2: "formatMoneyLine (Some (JNum 110)) = Some ''+110''" by code_simp
  have "map_of (buildOddsMap ?comps (Some [exampleOdds])) ''7'' =
      Some (formatMoneyLine (Some (JNum (- 130))))"
    using t src ih h ph by blast
  then have r1: "map_of (buildOddsMap ?comps (Some [exampleOdds])) ''7'' = Some (Some ''-130'')"
    by (simp only: f1)
  have ne: "truthyTeamId (find (\<lambda>c. homeAway c = ''home'') ?comps) \<noteq> Some ''12''"
    by (simp add: ih)
  have "map_of (buildOddsMap ?comps (Some [exampleOdds])) ''12'' =
      Some (formatMoneyLine (Some (JNum 110)))"
    using t src ia a pa ne by blast
  then have r2: "map_of (buildOddsMap ?comps (Some [exampleOdds])) ''12'' = Some (Some ''+110'')"
    by (simp only: f2)
  have r3: "map homeOdds (extractTeams [finalGame]) = [''-130'']" by code_simp
  show ?thesis using r1 r2 r3 by blast
qed

text \<open>What the example events turn into.\<close>

lemma example_sides:
  "map_option sd_score (fst (eventSides finalGame)) = Some (Some 24)"
  "map_option sd_score (snd (eventSides finalGame)) = Some (Some 20)"
  "map_option sd_score (fst (eventSides liveGame)) = Some (Some 7)"
  "map_option sd_score (snd (eventSides liveGame)) = Some (Some 3)"
  "map_option sd_score (fst (eventSides unscoredGame)) = Some (Some 24)"
  "map_option sd_score (snd (eventSides unscoredGame)) = Some None"
  by code_simp+

lemma example_emitted:
  "\<not> Option.is_none (extractGame finalGame)"
  "\<not> Option.is_none (extractGame upcomingGame)"
  "\<not> Option.is_none (extractGame liveGame)"
  by code_simp+

lemma example_states:
  "statusState finalGame = Some ''post''"
  "statusState upcomingGame = Some ''pre''"
  "statusState liveGame = Some ''in''"
  "statusState unscoredGame = Some ''post''"
  by (simp_all add: finalGame_def upcomingGame_def liveGame_def unscoredGame_def
      exampleGameEvent_def)

text \<open>
  Claim C7. For every game emitted for an event, with the scores the normalizer found
  for the two sides: when the state is \<^verbatim>\<open>post\<close> and both scores are numbers, the side with
  the higher score is the winner and the other the loser, equal scores make both a tie,
  and the scores shown are those numbers; when the state is a non-empty string other than
  \<^verbatim>\<open>pre\<close> and \<^verbatim>\<open>post\<close>, both sides are in progress and each score shown is the number, or
  the dash where there is none; when the state is \<^verbatim>\<open>pre\<close>, missing or empty, both sides
  are upcoming and both scores shown are the dash, whatever the scores are.
\<close>

theorem extractGame_status:
  assumes "extractGame ev = Some g"
  shows "\<exists>homeData awayData. eventSides ev = (Some homeData, Some awayData) \<and>
     (statusState ev = Some ''post'' \<longrightarrow>
        (\<forall>h a. sd_score homeData = Some h \<and> sd_score awayData = Some a \<longrightarrow>
           (a < h \<longrightarrow> homeStatus g = winner \<and> awayStatus g = loser) \<and>
           (h < a \<longrightarrow> homeStatus g = loser \<and> awayStatus g = winner) \<and>
           (h = a \<longrightarrow> homeStatus g = tie \<and> awayStatus g = tie) \<and>
           homeScore g = Points h \<and> awayScore g = Points a)) \<and>
     (truthyStr (statusState ev) \<and> statusState ev \<noteq> Some ''pre'' \<and> statusState ev \<noteq> Some ''post'' \<longrightarrow>
        homeStatus g = in_progress \<and> awayStatus g = in_progress \<and>
        homeScore g = scoreCell (sd_score homeData) \<and> awayScore g = scoreCell (sd_score awayData)) \<and>
     (statusState ev = Some ''pre'' \<or> \<not> truthyStr (statusState ev) \<longrightarrow>
        homeStatus g = upcoming \<and> awayStatus g = upcoming \<and>
        homeScore g = Dash \<and> awayScore g = Dash)"
proof -
  from extractGame_eventSides[OF assms] obtain homeData awayData where
    s: "eventSides ev = (Some homeData, Some awayData)" and
    g: "(homeStatus g, awayStatus g, homeScore g, awayScore g) =
        gameStatus (statusState ev) (sd_score homeData) (sd_score awayData)"
    by blast
  have post: "statusState ev = Some ''post'' \<longrightarrow>
        (\<forall>h a. sd_score homeData = Some h \<and> sd_score awayData = Some a \<longrightarrow>
           (a < h \<longrightarrow> homeStatus g = winner \<and> awayStatus g = loser) \<and>
           (h < a \<longrightarrow> homeStatus g = loser \<and> awayStatus g = winner) \<and>
           (h = a \<longrightarrow> homeStatus g = tie \<and> awayStatus g = tie) \<and>
           homeScore g = Points h \<and> awayScore g = Points a)"
    using g by (auto simp: gameStatus_def Let_def split: if_splits)
  have inp: "truthyStr (statusState ev) \<and> statusState ev \<noteq> Some ''pre'' \<and> statusState ev \<noteq> Some ''post'' \<longrightarrow>
        homeStatus g = in_progress \<and> awayStatus g = in_progress \<and>
        homeScore g = scoreCell (sd_score homeData) \<and> awayScore g = scoreCell (sd_score awayData)"
    using g by (auto simp: gameStatus_def scoreCell_def Let_def split: if_splits)
  have pre: "statusState ev = Some ''pre'' \<or> \<not> truthyStr (statusState ev) \<longrightarrow>
        homeStatus g = upcoming \<and> awayStatus g = upcoming \<and>
        homeScore g = Dash \<and> awayScore g = Dash"
    using g by (auto simp: gameStatus_def truthyStr_def Let_def split: if_splits)
  show ?thesis using s post inp pre by blast
qed

theorem extractGame_status_witness:
  "map_option statusLine (extractGame finalGame) = Some (winner, loser, Points 24, Points 20) \<and>
   map_option statusLine (extractGame upcomingGame) = Some (upcoming, upcoming, Dash, Dash) \<and>
   map_option statusLine (extractGame liveGame) =
     Some (in_progress, in_progress, Points 7, Points 3)"
proof -
  obtain g1 where g1: "extractGame finalGame = Some g1"
    using example_emitted(1) by (auto simp: Option.is_none_def)
  from extractGame_status[OF g1] obtain h1 a1 where
    s1: "eventSides finalGame = (Some h1, Some a1)" and
    p1: "\<forall>h a. sd_score h1 = Some h \<and> sd_score a1 = Some a \<longrightarrow>
           (a < h \<longrightarrow> homeStatus g1 = winner \<and> awayStatus g1 = loser) \<and>
           homeScore g1 = Points h \<and> awayScore g1 = Points a"
    using example_states(1) by blast
  have "sd_score h1 = Some 24 \<and> sd_score a1 = Some 20"
    using example_sides(1,2) s1 by simp
  with p1 have r1: "statusLine g1 = (winner, loser, Points 24, Points 20)"
    by (simp add: statusLine_def)
  obtain g2 where g2: "extractGame upcomingGame = Some g2"
    using example_emitted(2) by (auto simp: Option.is_none_def)
  from extractGame_status[OF g2] example_states(2)
  have r2: "statusLine g2 = (upcoming, upcoming, Dash, Dash)"
    by (auto simp: statusLine_def)
  obtain g3 where g3: "extractGame liveGame = Some g3"
    using example_emitted(3) by (auto simp: Option.is_none_def)
  have live: "truthyStr (statusState liveGame) \<and> statusState liveGame \<noteq> Some ''pre'' \<and>
      statusState liveGame \<noteq> Some ''post''"
    by (simp add: example_states(3) truthyStr_def)
  from extractGame_status[OF g3] live obtain h3 a3 where
    s3: "eventSides liveGame = (Some h3, Some a3)" and
    p3: "homeStatus g3 = in_progress \<and> awayStatus g3 = in_progress \<and>
        homeScore g3 = scoreCell (sd_score h3) \<and> awayScore g3 = scoreCell (sd_score a3)"
    by blast
  have "sd_score h3 = Some 7 \<and> sd_score a3 = Some 3"
    using example_sides(3,4) s3 by simp
  with p3 have r3: "statusLine g3 = (in_progress, in_progress, Points 7, Points 3)"
    by (simp add: statusLine_def scoreCell_def)
  show ?thesis using g1 r1 g2 r2 g3 r3 by simp
qed

text \<open>
  The scores the normalizer works with are those of the competitors: of the last one
  marked home and of the last one marked away. A score is \<^verbatim>\<open>null\<close> when the raw score is
  neither a number nor a string, or is a string that does not read as a number.
\<close>

text \<open>
  Both sides are found exactly for the events that have a first competition with at least
  two competitors, one of them marked home and one marked away.
\<close>

lemma lastWith_found: "lastWith role comps \<noteq> None \<longleftrightarrow> (\<exists>c\<in>set comps. homeAway c = role)"
  by (auto simp: lastWith_def find_None_iff)

lemma eventSides_found:
  "(\<exists>homeData awayData. eventSides ev = (Some homeData, Some awayData)) \<longleftrightarrow>
   (\<exists>c cs comps. competitions ev = Some (c # cs) \<and> competitors c = Some comps \<and>
      2 \<le> length comps \<and> (\<exists>x\<in>set comps. homeAway x = ''home'') \<and>
      (\<exists>x\<in>set comps. homeAway x = ''away''))"
proof
  assume "\<exists>homeData awayData. eventSides ev = (Some homeData, Some awayData)"
  then obtain homeData awayData where e: "eventSides ev = (Some homeData, Some awayData)"
    by blast
  then obtain c cs comps where c: "competitions ev = Some (c # cs)" "competitors c = Some comps"
      "\<not> length comps < 2"
    by (auto simp: eventSides_def split: option.splits list.splits if_splits)
  then have "sidesOf (buildOddsMap comps (odds c)) comps = (Some homeData, Some awayData)"
    using e by (simp add: eventSides_def)
  then have "lastWith ''home'' comps \<noteq> None" "lastWith ''away'' comps \<noteq> None"
    by (auto simp: sidesOf_eq)
  then have "\<exists>x\<in>set comps. homeAway x = ''home''" "\<exists>x\<in>set comps. homeAway x = ''away''"
    by (simp_all only: lastWith_found)
  moreover have "2 \<le> length comps" using c(3) by simp
  ultimately show "\<exists>c cs comps. competitions ev = Some (c # cs) \<and> competitors c = Some comps \<and>
      2 \<le> length comps \<and> (\<exists>x\<in>set comps. homeAway x = ''home'') \<and>
      (\<exists>x\<in>set comps. homeAway x = ''away'')"
    using c(1,2) by blast
next
  assume "\<exists>c cs comps. competitions ev = Some (c # cs) \<and> competitors c = Some comps \<and>
      2 \<le> length comps \<and> (\<exists>x\<in>set comps. homeAway x = ''home'') \<and>
      (\<exists>x\<in>set comps. homeAway x = ''away'')"
  then obtain c cs comps where c: "competitions ev = Some (c # cs)" "competitors c = Some comps"
      "2 \<le> length comps" and h: "\<exists>x\<in>set comps. homeAway x = ''home''"
      and a: "\<exists>x\<in>set comps. homeAway x = ''away''"
    by blast
  have "lastWith ''home'' comps \<noteq> None" using h by (simp only: lastWith_found)
  moreover have "lastWith ''away'' comps \<noteq> None" using a by (simp only: lastWith_found)
  ultimately show "\<exists>homeData awayData. eventSides ev = (Some homeData, Some awayData)"
    using c by (auto simp: eventSides_def sidesOf_eq)
qed

lemma scoreOf_null:
  "scoreOf ScoreOther = None"
  "stringToNumber s = None \<Longrightarrow> scoreOf (ScoreStr s) = None"
  "scoreOf (ScoreNum n) = Some n"
  by (simp_all add: scoreOf_def)

lemma eventSides_scores:
  assumes "competitions ev = Some (c # cs)" "competitors c = Some comps" "2 \<le> length comps"
  shows "map_option sd_score (fst (eventSides ev)) =
           map_option (\<lambda>x. scoreOf (score x)) (lastWith ''home'' comps)"
    and "map_option sd_score (snd (eventSides ev)) =
           map_option (\<lambda>x. scoreOf (score x)) (lastWith ''away'' comps)"
  using assms
  by (simp_all add: eventSides_def sidesOf_eq sideData_def option.map_comp comp_def)

text \<open>
  Claim C10. An event that reaches the status step with both sides found, whose state is
  \<^verbatim>\<open>post\<close> and for which the home score or the away score is \<^verbatim>\<open>null\<close> (missing or not
  numeric), is emitted as a game; both sides of the game are upcoming, and each score
  shown is the side's number where it has one and the dash where it has none.
\<close>

theorem extractGame_post_without_scores:
  assumes "eventSides ev = (Some homeData, Some awayData)"
    and "statusState ev = Some ''post''"
    and "sd_score homeData = None \<or> sd_score awayData = None"
  shows "\<exists>g. extractGame ev = Some g \<and>
     homeStatus g = upcoming \<and> awayStatus g = upcoming \<and>
     homeScore g = scoreCell (sd_score homeData) \<and>
     awayScore g = scoreCell (sd_score awayData)"
proof -
  from eventSides_extractGame[OF assms(1)] obtain g where
    e: "extractGame ev = Some g" and
    g: "(homeStatus g, awayStatus g, homeScore g, awayScore g) =
        gameStatus (statusState ev) (sd_score homeData) (sd_score awayData)"
    by blast
  have "homeStatus g = upcoming \<and> awayStatus g = upcoming \<and>
     homeScore g = scoreCell (sd_score homeData) \<and>
     awayScore g = scoreCell (sd_score awayData)"
    using g assms(2,3) by (auto simp: gameStatus_def scoreCell_def Let_def split: option.splits)
  with e show ?thesis by blast
qed

theorem extractGame_post_without_scores_witness:
  "map_option statusLine (extractGame unscoredGame) = Some (upcoming, upcoming, Points 24, Dash)"
proof -
  obtain h a where s: "eventSides unscoredGame = (h, a)" by (cases "eventSides unscoredGame")
  from example_sides(5,6) s obtain homeData awayData where
    ha: "h = Some homeData" "a = Some awayData" and
    sc: "sd_score homeData = Some 24" "sd_score awayData = None"
    by auto
  have e: "eventSides unscoredGame = (Some homeData, Some awayData)" using s ha by simp
  have n: "sd_score homeData = None \<or> sd_score awayData = None" using sc by simp
  from extractGame_post_without_scores[OF e example_states(4) n] sc
  show ?thesis by (auto simp: statusLine_def scoreCell_def)
qed

section \<open>Surfacing failures\<close>

text \<open>
  Claim C8, as stated, fails for the default request: on the scoreboard URL a resolution
  that ends with no game at all is stored as an empty list of games, with no error.
\<close>

theorem initializeFetch_empty_scoreboard:
  "outcome (fetchDeepSchedule emptySchedule) = Inr [] \<and>
   error (initializeFetch SCOREBOARD_URL emptySchedule initialState) = None \<and>
   games (initializeFetch SCOREBOARD_URL emptySchedule initialState) = [] \<and>
   \<not> loading (initializeFetch SCOREBOARD_URL emptySchedule initialState)"
  by (simp add: emptySchedule_run initializeFetch_def initialState_def SCOREBOARD_URL_def)

text \<open>
  Claim C8, amended. For a request with a URL: an error thrown by the fetcher is
  surfaced as the error \<^verbatim>\<open>Failed to retrieve valid game data. Reason: \<close> followed by the
  error's message, with no games; a resolution that ends with no game is surfaced in the
  same way, with the reason that the schedule API returned 0 games, when the URL is not
  the scoreboard URL, and is an empty success without error when it is; a resolution with
  games is a success with those games. In each case loading ends.
\<close>

theorem initializeFetch_surfaces:
  assumes "requestedUrl \<noteq> []"
  shows "(\<forall>msg. outcome (fetchDeepSchedule env) = Inl msg \<longrightarrow>
        error (initializeFetch requestedUrl env st) =
          Some (''Failed to retrieve valid game data. Reason: '' @ msg) \<and>
        games (initializeFetch requestedUrl env st) = [] \<and>
        \<not> loading (initializeFetch requestedUrl env st)) \<and>
     (outcome (fetchDeepSchedule env) = Inr [] \<and> requestedUrl \<noteq> SCOREBOARD_URL \<longrightarrow>
        error (initializeFetch requestedUrl env st) =
          Some (''Failed to retrieve valid game data. Reason: '' @ emptyMessage) \<and>
        games (initializeFetch requestedUrl env st) = [] \<and>
        \<not> loading (initializeFetch requestedUrl env st)) \<and>
     (outcome (fetchDeepSchedule env) = Inr [] \<and> requestedUrl = SCOREBOARD_URL \<longrightarrow>
        error (initializeFetch requestedUrl env st) = None \<and>
        games (initializeFetch requestedUrl env st) = [] \<and>
        \<not> loading (initializeFetch requestedUrl env st)) \<and>
     (\<forall>gs. outcome (fetchDeepSchedule env) = Inr gs \<and> gs \<noteq> [] \<longrightarrow>
        error (initializeFetch requestedUrl env st) = None \<and>
        games (initializeFetch requestedUrl env st) = gs \<and>
        \<not> loading (initializeFetch requestedUrl env st))"
  using assms by (auto simp: initializeFetch_def surface_def Let_def)

theorem initializeFetch_surfaces_witness:
  "error (initializeFetch weekUrl emptySchedule initialState) =
     Some (''Failed to retrieve valid game data. Reason: '' @ emptyMessage) \<and>
   games (initializeFetch weekUrl emptySchedule initialState) = [] \<and>
   error (initializeFetch weekUrl always503 initialState) =
     Some ''Failed to retrieve valid game data. Reason: HTTP Error 503: Service Unavailable'' \<and>
   error (initializeFetch SCOREBOARD_URL emptySchedule initialState) = None"
proof -
  have u: "weekUrl \<noteq> []" by (simp add: weekUrl_def)
  have d: "weekUrl \<noteq> SCOREBOARD_URL" by (simp add: weekUrl_def SCOREBOARD_URL_def)
  have s: "SCOREBOARD_URL \<noteq> []" by (simp add: SCOREBOARD_URL_def)
  note e = emptySchedule_run
  note f = always503_run(2)
  note t1 = initializeFetch_surfaces[OF u, of emptySchedule initialState]
  note t2 = initializeFetch_surfaces[OF u, of always503 initialState]
  note t3 = initializeFetch_surfaces[OF s, of emptySchedule initialState]
  have a: "error (initializeFetch weekUrl emptySchedule initialState) =
     Some (''Failed to retrieve valid game data. Reason: '' @ emptyMessage) \<and>
     games (initializeFetch weekUrl emptySchedule initialState) = []"
    using t1 e d by blast
  have "error (initializeFetch weekUrl always503 initialState) =
     Some (''Failed to retrieve valid game data. Reason: '' @ ''HTTP Error 503: Service Unavailable'')"
    using t2 f by blast
  then have b: "error (initializeFetch weekUrl always503 initialState) =
     Some ''Failed to retrieve valid game data. Reason: HTTP Error 503: Service Unavailable''"
    by simp
  have c: "error (initializeFetch SCOREBOARD_URL emptySchedule initialState) = None"
    using t3 e by blast
  show ?thesis using a b c by blast
qed

end
